theory Spec2Isabelle
  imports Main "HOL-Library.Sublist"
begin

section \<open>Data model\<close>

text \<open>
  The theory embeds the call pipeline of \<^verbatim>\<open>src/remote-api.ts\<close> (class \<^verbatim>\<open>RemoteAPI\<close>), the
  authentication strategies of \<^verbatim>\<open>src/auth\<close> and \<^verbatim>\<open>src/core/src/auth\<close>, and the types and
  exceptions they use.

  JavaScript values that travel through the pipeline untouched (payloads, response
  bodies) are JSON values; \<^verbatim>\<open>undefined\<close> is \<open>None\<close> of an option type. A
  \<^verbatim>\<open>Record<string, string>\<close> is an association list in insertion order, which is the
  order \<^verbatim>\<open>Object.entries\<close> enumerates.
\<close>

datatype json =
    JNull
  | JBool bool
  | JNum int
  | JStr string
  | JArr "json list"
  | JObj "(string \<times> json) list"

type_synonym dict = "(string \<times> string) list"

text \<open>\<^verbatim>\<open>obj[k] = v\<close>: an existing key keeps its place, a new key goes last.\<close>

fun obj_set :: "string \<Rightarrow> 'v \<Rightarrow> (string \<times> 'v) list \<Rightarrow> (string \<times> 'v) list" where
  "obj_set k v [] = [(k, v)]"
| "obj_set k v ((k', v') # kvs) =
     (if k' = k then (k, v) # kvs else (k', v') # obj_set k v kvs)"

text \<open>Object spread \<^verbatim>\<open>{...a, ...b}\<close>.\<close>

definition obj_spread :: "(string \<times> 'v) list \<Rightarrow> (string \<times> 'v) list \<Rightarrow> (string \<times> 'v) list" where
  "obj_spread a b = fold (\<lambda>(k, v). obj_set k v) b a"

text \<open>\<^verbatim>\<open>AuthStrategy.Type\<close> (\<^verbatim>\<open>auth.strategy.ts\<close>).\<close>

datatype auth_type =
    NONE
  | BEARER_TOKEN
  | REFRESHABLE_BEARER_TOKEN
  | UNIPILE_CUSTOM_AUTH_BEARER_TOKEN

text \<open>
  \<^verbatim>\<open>EndpointCallParams\<close> (\<^verbatim>\<open>types.ts\<close>): the parameter object the caller hands to
  \<^verbatim>\<open>call\<close>. The fields are \<^verbatim>\<open>pathParams\<close>, \<^verbatim>\<open>query\<close>, \<^verbatim>\<open>payload\<close>, \<^verbatim>\<open>auth\<close> and \<^verbatim>\<open>context\<close>;
  the prefix keeps them apart from the request's fields of the same name.
\<close>

record call_params =
  pathParams :: "dict option"
  p_query :: "(string \<times> json) list option"
  p_payload :: "json option"
  p_auth :: "dict option"
  p_context :: "json option"

text \<open>
  The normalization rule of an endpoint: a mapping table from target key to source path,
  or a function of the call parameters and the raw payload. The function is code of the
  service and may throw: it returns its value, or \<open>Inl\<close> with the message of what it
  throws.
\<close>

datatype normalization =
    NormTable dict
  | NormFun "call_params option \<Rightarrow> json option \<Rightarrow> string + json option"

text \<open>
  \<^verbatim>\<open>Endpoint\<close> (\<^verbatim>\<open>types.ts\<close>), fields \<^verbatim>\<open>name\<close>, \<^verbatim>\<open>method\<close>, \<^verbatim>\<open>url\<close>, \<^verbatim>\<open>authentication\<close>,
  \<^verbatim>\<open>headers\<close>, \<^verbatim>\<open>normalizationMapping\<close>. The method is declared as the enum
  \<^verbatim>\<open>HTTPMethods\<close> but read from reflection metadata and checked at run time by
  \<^verbatim>\<open>validateApiCall\<close>, so it is a string here.
\<close>

record endpoint =
  name :: string
  e_method :: string
  e_url :: string
  authentication :: "auth_type option"
  e_headers :: "dict option"
  normalizationMapping :: "normalization option"

record response =
  status :: "int option"
  data :: "json option"

record request =
  r_method :: string
  url :: string
  query :: "(string \<times> json) list option"
  headers :: dict
  auth :: "dict option"
  payload :: "json option"

text \<open>
  \<^verbatim>\<open>APICall\<close> (\<^verbatim>\<open>types.ts\<close>); \<open>r_method\<close> above is the field
  \<^verbatim>\<open>request.method\<close>.
\<close>

record api_call =
  endpoint :: endpoint
  request :: request
  response :: "response option"

text \<open>
  Everything the pipeline throws. The source throws a plain \<^verbatim>\<open>Error\<close> with a message
  for the first four; the constructors are named after the condition the message reports.
  \<open>TransportError\<close> is an Axios error with the status and body of the provider's
  answer; \<open>OtherError\<close> is any other thrown value (a network failure, a
  \<^verbatim>\<open>TypeError\<close>).
\<close>

datatype error =
    EndpointNotFound string
  | AuthStrategyNotConfigured auth_type string
  | MissingPathParameter string "string list"
  | InvalidMethod string
  | InvalidAuthParams api_call
  | LocalRemoteAPIRateLimitExceeded api_call
  | RetryAPICall api_call
  | AuthenticationFailed api_call error
  | TransportError int "json option"
  | OtherError string

fun isRetryAPICall :: "error \<Rightarrow> bool" where
  "isRetryAPICall (RetryAPICall c) = True"
| "isRetryAPICall _ = False"

datatype event_type = BEFORE | AFTER | SUCCESS | ERROR

text \<open>
  An emitted event: the endpoint name and phase of the event name, and the \<^verbatim>\<open>params\<close> and
  \<^verbatim>\<open>apiCall\<close> objects as a listener sees them when the event is emitted.
\<close>

record event =
  ev_endpoint :: string
  ev_type :: event_type
  ev_params :: "call_params option"
  ev_apiCall :: api_call

datatype log_entry = LogWarn string | LogError string

datatype hook = AuthStrategyHook | ServiceHook


section \<open>Authentication strategies\<close>

text \<open>
  \<^verbatim>\<open>AuthStrategyParams\<close>: the optional overrides of \<^verbatim>\<open>isAuthError\<close> and
  \<^verbatim>\<open>onAuthError\<close> a strategy is constructed with. \<^verbatim>\<open>onAuthError\<close> returns a boolean or
  throws.
\<close>

record auth_hooks =
  isAuthError_param :: "(api_call \<Rightarrow> error \<Rightarrow> bool) option"
  onAuthError_param :: "(call_params option \<Rightarrow> api_call \<Rightarrow> error \<Rightarrow> error + bool) option"

text \<open>\<^verbatim>\<open>AccessTokenResponse\<close> (\<^verbatim>\<open>refreshable-bearer-token-auth.strategy.ts\<close>).\<close>

record access_token_response =
  accessToken :: string
  refreshToken :: "string option"
  expiresIn :: int

text \<open>
  The members a \<^verbatim>\<open>RefreshableBearerTokenAuthStrategy\<close> is given:
  \<^verbatim>\<open>isAccessTokenExpiredError\<close>, \<^verbatim>\<open>refreshAccessToken\<close> (a request of its own, which may
  fail) and the optional \<^verbatim>\<open>buildRefreshAccessTokenPayload\<close>.
\<close>

record refresh_hooks =
  isAccessTokenExpiredError :: "api_call \<Rightarrow> error \<Rightarrow> bool"
  refreshAccessToken :: "call_params \<Rightarrow> error + access_token_response"
  buildRefreshAccessTokenPayload :: "(call_params \<Rightarrow> json option) option"

text \<open>The strategy classes of \<^verbatim>\<open>src/auth\<close> and \<^verbatim>\<open>src/core/src/auth\<close>.\<close>

datatype auth_strategy =
    NoneAuthStrategy
  | BearerTokenAuthStrategy auth_hooks
  | RefreshableBearerTokenAuthStrategy auth_hooks refresh_hooks
  | UnipileCustomAuthAuthStrategy auth_hooks

fun strategy_type :: "auth_strategy \<Rightarrow> auth_type" where
  "strategy_type NoneAuthStrategy = NONE"
| "strategy_type (BearerTokenAuthStrategy h) = BEARER_TOKEN"
| "strategy_type (RefreshableBearerTokenAuthStrategy h r) = REFRESHABLE_BEARER_TOKEN"
| "strategy_type (UnipileCustomAuthAuthStrategy h) = UNIPILE_CUSTOM_AUTH_BEARER_TOKEN"

fun strategy_hooks :: "auth_strategy \<Rightarrow> auth_hooks" where
  "strategy_hooks NoneAuthStrategy = \<lparr>isAuthError_param = None, onAuthError_param = None\<rparr>"
| "strategy_hooks (BearerTokenAuthStrategy h) = h"
| "strategy_hooks (RefreshableBearerTokenAuthStrategy h r) = h"
| "strategy_hooks (UnipileCustomAuthAuthStrategy h) = h"

text \<open>
  \<^verbatim>\<open>_.keyBy(this.useAuthStrategies(), (strategy) => strategy.type())\<close> of the
  constructor: the strategy map; of two strategies of one type the later one stays.
\<close>

definition keyByType :: "auth_strategy list \<Rightarrow> auth_type \<Rightarrow> auth_strategy option" where
  "keyByType strategies = map_of (rev (map (\<lambda>a. (strategy_type a, a)) strategies))"

section \<open>The service and its mutable state\<close>

text \<open>
  What a concrete service supplies: the overridable hooks of \<^verbatim>\<open>RemoteAPI\<close>
  (\<^verbatim>\<open>baseUrl\<close>, \<^verbatim>\<open>defaultAuthStrategy\<close>, \<^verbatim>\<open>defaultHeaders\<close>, \<^verbatim>\<open>rateLimit\<close>,
  \<^verbatim>\<open>rateLimitWindowLength\<close>, \<^verbatim>\<open>isApiError\<close>, \<^verbatim>\<open>onApiError\<close>), the endpoint registry
  \<^verbatim>\<open>_endpoints\<close>, the strategy map \<^verbatim>\<open>_authStrategies\<close>, the \<^verbatim>\<open>dryRun\<close> flag, and the
  collaborators: lodash's \<^verbatim>\<open>get\<close>, the HTTP transport and the clock. The transport
  answers the \<open>n\<close>-th request of the service (counted from 0) and the clock
  the \<open>n\<close>-th reading, so that both are deterministic but arbitrary.
\<close>

record service =
  baseUrl :: string
  defaultAuthStrategy :: auth_type
  defaultHeaders :: dict
  rateLimit :: int
  rateLimitWindowLength :: int
  endpoints :: "(string \<times> endpoint) list"
  authStrategies :: "auth_type \<Rightarrow> auth_strategy option"
  isApiError :: "error \<Rightarrow> bool"
  onApiError :: "call_params option \<Rightarrow> api_call \<Rightarrow> error \<Rightarrow> bool"
  dryRun :: bool
  lodash_get :: "json option \<Rightarrow> string \<Rightarrow> json option"
  transport :: "nat \<Rightarrow> api_call \<Rightarrow> error + response"
  clock :: "nat \<Rightarrow> int"

text \<open>
  The mutable fields of the service object (\<^verbatim>\<open>_rateLimitWindowCounter\<close>,
  \<^verbatim>\<open>_lastWindowOverflow\<close>, \<^verbatim>\<open>_currentRateLimitWindowStart\<close>, \<^verbatim>\<open>_rateLimitedApiCalls\<close>)
  and the traces of its effects: events emitted, log lines written, requests handed to
  the transport, calls of \<^verbatim>\<open>refreshAccessToken\<close> with their argument, error hooks run,
  and the number of clock readings.
\<close>

record state =
  rateLimitWindowCounter :: int
  lastWindowOverflow :: int
  currentRateLimitWindowStart :: int
  rateLimitedApiCalls :: "api_call list"
  events :: "event list"
  logged :: "log_entry list"
  dispatched :: "api_call list"
  refreshed :: "call_params list"
  hooks :: "hook list"
  ticks :: nat

section \<open>Rate limiter\<close>

definition nextRateLimitWindow :: "service \<Rightarrow> state \<Rightarrow> int" where
  "nextRateLimitWindow svc s = currentRateLimitWindowStart s + rateLimitWindowLength svc"

text \<open>
  The body of the \<^verbatim>\<open>if (now >= this.nextRateLimitWindow())\<close> block of
  \<^verbatim>\<open>enforceGlobalRateLimit\<close>: report the overflow of the window that ended and start a
  fresh one.
\<close>

definition startNewWindow :: "int \<Rightarrow> state \<Rightarrow> state" where
  "startNewWindow now s =
     (let rateLimited = int (length (rateLimitedApiCalls s));
          s1 = (if rateLimited > 0
                then (if lastWindowOverflow s > 0 \<and> rateLimited > lastWindowOverflow s
                      then s\<lparr>logged := logged s @ [LogError ''SENDING RATE LIMITED AND GROWING'']\<rparr>
                      else s\<lparr>logged := logged s @ [LogWarn ''SENDING RATE LIMITED'']\<rparr>)
                     \<lparr>lastWindowOverflow := rateLimited\<rparr>
                else s\<lparr>lastWindowOverflow := 0\<rparr>)
      in s1\<lparr>currentRateLimitWindowStart := now,
             rateLimitWindowCounter := 0,
             rateLimitedApiCalls := []\<rparr>)"

text \<open>
  The rest of \<^verbatim>\<open>enforceGlobalRateLimit\<close>: the limit test. The result \<open>True\<close> means
  the call is rate limited.
\<close>

definition checkRateLimit :: "service \<Rightarrow> api_call \<Rightarrow> state \<Rightarrow> bool \<times> state" where
  "checkRateLimit svc apiCall s =
     (if rateLimitWindowCounter s \<ge> rateLimit svc
      then (True, s\<lparr>rateLimitedApiCalls := rateLimitedApiCalls s @ [apiCall]\<rparr>)
      else (False, s\<lparr>rateLimitWindowCounter := rateLimitWindowCounter s + 1\<rparr>))"

definition enforceGlobalRateLimit :: "service \<Rightarrow> int \<Rightarrow> api_call \<Rightarrow> state \<Rightarrow> bool \<times> state" where
  "enforceGlobalRateLimit svc now apiCall s =
     checkRateLimit svc apiCall
       (if now \<ge> nextRateLimitWindow svc s then startNewWindow now s else s)"

section \<open>URL resolver\<close>

fun includes_str :: "string \<Rightarrow> string \<Rightarrow> bool" where
  "includes_str sub [] = (sub = [])"
| "includes_str sub (c # cs) = (prefix sub (c # cs) \<or> includes_str sub cs)"

definition resolveBaseUrl :: "service \<Rightarrow> string \<Rightarrow> string" where
  "resolveBaseUrl svc u = (if includes_str ''://'' u then u else baseUrl svc @ u)"

text \<open>The character class \<^verbatim>\<open>[a-zA-Z0-9_]\<close>.\<close>

definition is_word_char :: "char \<Rightarrow> bool" where
  "is_word_char c \<longleftrightarrow>
     c \<in> set ''abcdefghijklmnopqrstuvwxyzABCDEFGHIJKLMNOPQRSTUVWXYZ0123456789_''"

text \<open>
  \<^verbatim>\<open>extractPathParamNames\<close>: the loop of \<^verbatim>\<open>exec\<close> over the global regular expression
  \<^verbatim>\<open>/\/:([a-zA-Z0-9_]+)/g\<close>. A match starts at a slash followed by a colon and at least one
  word character, takes the longest run of word characters, and the search goes on
  behind it.
\<close>

function extractPathParamNames :: "string \<Rightarrow> string list" where
  "extractPathParamNames [] = []"
| "extractPathParamNames (c # cs) =
     (if c = CHR ''/'' \<and> cs \<noteq> [] \<and> hd cs = CHR '':'' \<and> takeWhile is_word_char (tl cs) \<noteq> []
      then takeWhile is_word_char (tl cs) # extractPathParamNames (dropWhile is_word_char (tl cs))
      else extractPathParamNames cs)"
  by pat_completeness auto
termination
proof (relation "measure length")
  fix c :: char and cs :: string
  have "length (dropWhile is_word_char (tl cs)) \<le> length (tl cs)"
    by (rule length_dropWhile_le)
  then show "(dropWhile is_word_char (tl cs), c # cs) \<in> measure length"
    by simp
qed simp_all

text \<open>
  \<^verbatim>\<open>validatePathParams\<close>. The test \<^verbatim>\<open>param in pathParams\<close> is that of the object's own
  keys; the members every JavaScript object inherits are not modelled.
\<close>

definition validatePathParams :: "string \<Rightarrow> string list \<Rightarrow> dict option \<Rightarrow> error + unit" where
  "validatePathParams u requiredPathParams pps =
     (if requiredPathParams = [] then Inr ()
      else case pps of
             None \<Rightarrow> Inl (MissingPathParameter u requiredPathParams)
           | Some pp \<Rightarrow>
               (let missingParams = filter (\<lambda>param. param \<notin> set (map fst pp)) requiredPathParams
                in if missingParams \<noteq> [] then Inl (MissingPathParameter u missingParams)
                   else Inr ()))"

text \<open>
  \<^verbatim>\<open>acc.replace(new RegExp(`:${key}(?=/|$)`, 'g'), value)\<close>: every occurrence of a colon
  and the key that is followed by a slash or by the end of the string is replaced, left
  to right, and the replacement is not searched again. The key is read as a regular
  expression and the value as a replacement pattern by JavaScript; the model is that of
  keys without regular-expression operators and of values without a dollar sign, for
  which both are literal text.
\<close>

fun replaceParam :: "string \<Rightarrow> string \<Rightarrow> string \<Rightarrow> string" where
  "replaceParam key val [] = []"
| "replaceParam key val (c # cs) =
     (if c = CHR '':'' \<and> prefix key cs \<and>
         (drop (length key) cs = [] \<or> hd (drop (length key) cs) = CHR ''/'')
      then val @ replaceParam key val (drop (length key) cs)
      else c # replaceParam key val cs)"

definition replacePathParams :: "string \<Rightarrow> dict option \<Rightarrow> string" where
  "replacePathParams u pps =
     (case pps of
        None \<Rightarrow> u
      | Some pp \<Rightarrow> fold (\<lambda>(key, val) acc. replaceParam key val acc) pp u)"

definition constructUrl :: "service \<Rightarrow> string \<Rightarrow> dict option \<Rightarrow> error + string" where
  "constructUrl svc u pps =
     (let resolvedUrl = resolveBaseUrl svc u;
          requiredPathParams = extractPathParamNames resolvedUrl
      in case validatePathParams u requiredPathParams pps of
           Inl e \<Rightarrow> Inl e
         | Inr _ \<Rightarrow> Inr (replacePathParams resolvedUrl pps))"

section \<open>Building a call\<close>

text \<open>
  \<^verbatim>\<open>execute\<close> of \<^verbatim>\<open>BearerTokenAuthStrategy\<close> and \<^verbatim>\<open>UnipileCustomAuthAuthStrategy\<close>: they
  differ in the header they set.
\<close>

definition token_execute :: "string \<Rightarrow> string \<Rightarrow> api_call \<Rightarrow> error + api_call" where
  "token_execute header pre apiCall =
     (case auth (request apiCall) of
        None \<Rightarrow> Inl (InvalidAuthParams apiCall)
      | Some a \<Rightarrow>
          (case map_of a ''accessToken'' of
             None \<Rightarrow> Inl (InvalidAuthParams apiCall)
           | Some t \<Rightarrow>
               if t = [] then Inl (InvalidAuthParams apiCall)
               else Inr (apiCall\<lparr>request := (request apiCall)
                      \<lparr>headers := obj_set header (pre @ t) (headers (request apiCall))\<rparr>\<rparr>)))"

fun execute :: "auth_strategy \<Rightarrow> api_call \<Rightarrow> error + api_call" where
  "execute NoneAuthStrategy apiCall = Inr apiCall"
| "execute (BearerTokenAuthStrategy h) apiCall =
     token_execute ''Authorization'' ''Bearer '' apiCall"
| "execute (RefreshableBearerTokenAuthStrategy h r) apiCall =
     token_execute ''Authorization'' ''Bearer '' apiCall"
| "execute (UnipileCustomAuthAuthStrategy h) apiCall =
     token_execute ''X-API-KEY'' [] apiCall"

definition addDefaultHeaders :: "service \<Rightarrow> api_call \<Rightarrow> api_call" where
  "addDefaultHeaders svc apiCall =
     apiCall\<lparr>request := (request apiCall)
       \<lparr>headers := obj_spread (defaultHeaders svc) (headers (request apiCall))\<rparr>\<rparr>"

definition buildApiCall ::
  "service \<Rightarrow> endpoint \<Rightarrow> call_params option \<Rightarrow> auth_strategy \<Rightarrow> string option \<Rightarrow> error + api_call"
where
  "buildApiCall svc ep params authStrategy overwriteUrl =
     (case (case overwriteUrl of
              Some u \<Rightarrow> if u \<noteq> [] then Inr u
                        else constructUrl svc (e_url ep) (case params of None \<Rightarrow> None | Some p \<Rightarrow> pathParams p)
            | None \<Rightarrow> constructUrl svc (e_url ep) (case params of None \<Rightarrow> None | Some p \<Rightarrow> pathParams p)) of
        Inl e \<Rightarrow> Inl e
      | Inr u \<Rightarrow>
          execute authStrategy
            (addDefaultHeaders svc
               \<lparr>endpoint = ep,
                request = \<lparr>r_method = e_method ep,
                           url = u,
                           query = (case params of None \<Rightarrow> None | Some p \<Rightarrow> p_query p),
                           headers = (case e_headers ep of None \<Rightarrow> [] | Some h \<Rightarrow> h),
                           auth = (case params of None \<Rightarrow> None | Some p \<Rightarrow> p_auth p),
                           payload = (case params of None \<Rightarrow> None | Some p \<Rightarrow> p_payload p)\<rparr>,
                response = None\<rparr>))"

definition buildAuthStrategy :: "service \<Rightarrow> endpoint \<Rightarrow> error + auth_strategy" where
  "buildAuthStrategy svc ep =
     (let strategyType = (case authentication ep of
                            None \<Rightarrow> defaultAuthStrategy svc
                          | Some t \<Rightarrow> t);
          strategy = (case strategyType of
                        NONE \<Rightarrow> Some NoneAuthStrategy
                      | BEARER_TOKEN \<Rightarrow> authStrategies svc BEARER_TOKEN
                      | _ \<Rightarrow> authStrategies svc strategyType)
      in case strategy of
           None \<Rightarrow> Inl (AuthStrategyNotConfigured strategyType (name ep))
         | Some a \<Rightarrow> Inr a)"

text \<open>\<^verbatim>\<open>String.prototype.toLowerCase\<close> on the letters of the method names.\<close>

definition lower_char :: "char \<Rightarrow> char" where
  "lower_char c =
     (case map_of (zip ''ABCDEFGHIJKLMNOPQRSTUVWXYZ'' ''abcdefghijklmnopqrstuvwxyz'') c of
        None \<Rightarrow> c
      | Some l \<Rightarrow> l)"

definition validateApiCall :: "api_call \<Rightarrow> error + unit" where
  "validateApiCall apiCall =
     (let m = map lower_char (r_method (request apiCall))
      in if m \<notin> set [''get'', ''post'', ''delete'', ''patch''] then Inl (InvalidMethod m)
         else Inr ())"

section \<open>Error hooks of the strategies\<close>

definition isAuthError :: "auth_strategy \<Rightarrow> api_call \<Rightarrow> error \<Rightarrow> bool" where
  "isAuthError strategy apiCall err =
     (case isAuthError_param (strategy_hooks strategy) of
        None \<Rightarrow> False
      | Some f \<Rightarrow> f apiCall err)"

definition onAuthError ::
  "auth_strategy \<Rightarrow> call_params option \<Rightarrow> api_call \<Rightarrow> error \<Rightarrow> error + bool"
where
  "onAuthError strategy params apiCall err =
     (case onAuthError_param (strategy_hooks strategy) of
        None \<Rightarrow> Inl (AuthenticationFailed apiCall err)
      | Some f \<Rightarrow> f params apiCall err)"

text \<open>\<^verbatim>\<open>AuthStrategy.onApiError\<close>, the base classification.\<close>

definition base_onApiError ::
  "auth_strategy \<Rightarrow> call_params option \<Rightarrow> api_call \<Rightarrow> error \<Rightarrow> error + bool"
where
  "base_onApiError strategy params apiCall err =
     (if isAuthError strategy apiCall err then onAuthError strategy params apiCall err
      else Inr True)"

text \<open>
  \<^verbatim>\<open>RefreshableBearerTokenAuthStrategy.onApiError\<close>. It returns what it returns or
  throws, together with the three objects it may have written to: the caller's
  parameter object, the call that failed, and the service state (the trace of
  \<^verbatim>\<open>refreshAccessToken\<close> calls). The rebuilt call is built by \<^verbatim>\<open>buildApiCall\<close> without an
  overwrite URL.
\<close>

definition refreshable_onApiError ::
  "service \<Rightarrow> auth_hooks \<Rightarrow> refresh_hooks \<Rightarrow> call_params option \<Rightarrow> api_call \<Rightarrow> error \<Rightarrow> state
     \<Rightarrow> (error + bool) \<times> api_call \<times> call_params option \<times> state"
where
  "refreshable_onApiError svc h r callParams apiCall err s =
     (if isAccessTokenExpiredError r apiCall err then
        (case buildRefreshAccessTokenPayload r of
           None \<Rightarrow> (Inl (OtherError ''buildRefreshAccessTokenPayload not provided''),
                     apiCall, callParams, s)
         | Some build \<Rightarrow>
             (case callParams of
                None \<Rightarrow> (Inl (OtherError ''TypeError''), apiCall, callParams, s)
              | Some p \<Rightarrow>
                  (let originalPayload = p_payload p;
                       p1 = p\<lparr>p_payload := build p\<rparr>;
                       s1 = s\<lparr>refreshed := refreshed s @ [p1]\<rparr>
                   in case refreshAccessToken r p1 of
                        Inl e \<Rightarrow> (Inl e, apiCall, Some p1, s1)
                      | Inr newTokens \<Rightarrow>
                          (let apiCall1 = apiCall\<lparr>request := (request apiCall)
                                 \<lparr>auth := Some (obj_set ''accessToken'' (accessToken newTokens)
                                    (case auth (request apiCall) of None \<Rightarrow> [] | Some a \<Rightarrow> a))\<rparr>\<rparr>;
                               p2 = p1\<lparr>p_auth := Some (obj_set ''accessToken'' (accessToken newTokens)
                                         (case p_auth p1 of None \<Rightarrow> [] | Some a \<Rightarrow> a)),
                                       p_payload := originalPayload\<rparr>
                           in case buildApiCall svc (endpoint apiCall) (Some p2)
                                     (RefreshableBearerTokenAuthStrategy h r) None of
                                Inl e \<Rightarrow> (Inl e, apiCall1, Some p1, s1)
                              | Inr newApiCall \<Rightarrow>
                                  (Inl (RetryAPICall newApiCall), apiCall1, Some p1, s1)))))
      else (base_onApiError (RefreshableBearerTokenAuthStrategy h r) callParams apiCall err,
            apiCall, callParams, s))"

fun strategy_onApiError ::
  "service \<Rightarrow> auth_strategy \<Rightarrow> call_params option \<Rightarrow> api_call \<Rightarrow> error \<Rightarrow> state
     \<Rightarrow> (error + bool) \<times> api_call \<times> call_params option \<times> state"
where
  "strategy_onApiError svc NoneAuthStrategy params apiCall err s =
     (Inr True, apiCall, params, s)"
| "strategy_onApiError svc (RefreshableBearerTokenAuthStrategy h r) params apiCall err s =
     refreshable_onApiError svc h r params apiCall err s"
| "strategy_onApiError svc strategy params apiCall err s =
     (base_onApiError strategy params apiCall err, apiCall, params, s)"

section \<open>One dispatch attempt\<close>

text \<open>The response \<^verbatim>\<open>executeApiCall\<close> makes up in dry-run mode.\<close>

definition dryRunResponse :: response where
  "dryRunResponse = \<lparr>status = None, data = Some (JObj [(''message'', JStr ''dry-run-response'')])\<rparr>"

text \<open>
  \<^verbatim>\<open>executeApiCall\<close>. The first component is the error thrown, or \<open>None\<close> when
  the attempt returns; the others are the call object, the caller's parameter object
  and the service state as the attempt leaves them. The service hook only logs and
  returns a boolean; where the source calls it and drops the result, the call is kept in
  the trace of hooks.
\<close>

definition executeApiCall ::
  "service \<Rightarrow> call_params option \<Rightarrow> api_call \<Rightarrow> auth_strategy option \<Rightarrow> state
     \<Rightarrow> error option \<times> api_call \<times> call_params option \<times> state"
where
  "executeApiCall svc endpointParams apiCall authStrategy s =
     (case enforceGlobalRateLimit svc (clock svc (ticks s)) apiCall (s\<lparr>ticks := Suc (ticks s)\<rparr>) of
        (True, s1) \<Rightarrow> (Some (LocalRemoteAPIRateLimitExceeded apiCall), apiCall, endpointParams, s1)
      | (False, s1) \<Rightarrow>
          if dryRun svc then
            (None, apiCall\<lparr>response := Some dryRunResponse\<rparr>, endpointParams,
             s1\<lparr>logged := logged s1 @ [LogWarn ''running in dry run mode'']\<rparr>)
          else
            (let s2 = s1\<lparr>dispatched := dispatched s1 @ [apiCall]\<rparr>
             in case transport svc (length (dispatched s1)) apiCall of
                  Inr resp \<Rightarrow> (None, apiCall\<lparr>response := Some resp\<rparr>, endpointParams, s2)
                | Inl err \<Rightarrow>
                    if isApiError svc err then
                      (case authStrategy of
                         Some strategy \<Rightarrow>
                           (case strategy_onApiError svc strategy endpointParams apiCall err
                                   (s2\<lparr>hooks := hooks s2 @ [AuthStrategyHook]\<rparr>) of
                              (Inr bubbleUp0, apiCall1, params1, s3) \<Rightarrow>
                                (let s4 = s3\<lparr>hooks := hooks s3 @ [ServiceHook]\<rparr>;
                                     bubbleUp = onApiError svc params1 apiCall1 err
                                 in if bubbleUp then (Some err, apiCall1, params1, s4)
                                    else (None, apiCall1\<lparr>response := None\<rparr>, params1, s4))
                            | (Inl thrown, apiCall1, params1, s3) \<Rightarrow>
                                if isRetryAPICall thrown then (Some thrown, apiCall1, params1, s3)
                                else (Some thrown, apiCall1, params1,
                                      s3\<lparr>hooks := hooks s3 @ [ServiceHook]\<rparr>))
                       | None \<Rightarrow>
                           (let s3 = s2\<lparr>hooks := hooks s2 @ [ServiceHook]\<rparr>;
                                bubbleUp = onApiError svc endpointParams apiCall err
                            in if bubbleUp then (Some err, apiCall, endpointParams, s3)
                               else (None, apiCall\<lparr>response := None\<rparr>, endpointParams, s3)))
                    else (Some err, apiCall, endpointParams, s2)))"

section \<open>Response normalizer\<close>

text \<open>The warning logged for a target key whose source path is not found.\<close>

definition warnMissing :: "string \<times> string \<Rightarrow> log_entry" where
  "warnMissing kp =
     LogWarn (''Error while normalizing response: path '' @ snd kp @
              '' not found in the API response for key '' @ fst kp)"

text \<open>
  The loop of \<^verbatim>\<open>normalizeWithObjectMapping\<close> over \<^verbatim>\<open>Object.entries(mapping)\<close>, with the
  object under construction as accumulator. \<open>get\<close> is lodash's \<^verbatim>\<open>get\<close>.
\<close>

fun normalizeEntries ::
  "(json option \<Rightarrow> string \<Rightarrow> json option) \<Rightarrow> dict \<Rightarrow> json option
     \<Rightarrow> (string \<times> json) list \<Rightarrow> state \<Rightarrow> (string \<times> json) list \<times> state"
where
  "normalizeEntries get [] pl normalizedResponse s = (normalizedResponse, s)"
| "normalizeEntries get ((key, path) # rest) pl normalizedResponse s =
     (case get pl path of
        Some v \<Rightarrow> normalizeEntries get rest pl (obj_set key v normalizedResponse) s
      | None \<Rightarrow>
          normalizeEntries get rest pl normalizedResponse
            (s\<lparr>logged := logged s @ [warnMissing (key, path)]\<rparr>))"

definition normalizeWithObjectMapping ::
  "service \<Rightarrow> dict \<Rightarrow> json option \<Rightarrow> state \<Rightarrow> (string \<times> json) list \<times> state"
where
  "normalizeWithObjectMapping svc mapping pl s =
     normalizeEntries (lodash_get svc) mapping pl [] s"

text \<open>
  \<^verbatim>\<open>normalizeResponse\<close>. Reading \<^verbatim>\<open>apiCall.response.data\<close> of a call without a response
  throws a \<^verbatim>\<open>TypeError\<close>. The function form is called without a \<^verbatim>\<open>try\<close> around it, so
  what it throws leaves \<^verbatim>\<open>normalizeResponse\<close>, and \<^verbatim>\<open>call\<close> with it.
\<close>

definition normalizeResponse ::
  "service \<Rightarrow> call_params option \<Rightarrow> api_call \<Rightarrow> state \<Rightarrow> (error + api_call) \<times> state"
where
  "normalizeResponse svc params apiCall s =
     (case normalizationMapping (endpoint apiCall) of
        None \<Rightarrow> (Inr apiCall, s)
      | Some m \<Rightarrow>
          (case response apiCall of
             None \<Rightarrow> (Inl (OtherError ''TypeError''), s)
           | Some resp \<Rightarrow>
               (case m of
                  NormFun f \<Rightarrow>
                    (case f params (data resp) of
                       Inl thrown \<Rightarrow> (Inl (OtherError thrown), s)
                     | Inr normalizedResponse \<Rightarrow>
                         (Inr (apiCall\<lparr>response :=
                                 Some (resp\<lparr>data := normalizedResponse\<rparr>)\<rparr>), s))
                | NormTable mapping \<Rightarrow>
                    (case normalizeWithObjectMapping svc mapping (data resp) s of
                       (normalizedResponse, s1) \<Rightarrow>
                         (Inr (apiCall\<lparr>response :=
                                 Some (resp\<lparr>data := Some (JObj normalizedResponse)\<rparr>)\<rparr>), s1)))))"

section \<open>The call pipeline\<close>

definition emit :: "string \<Rightarrow> event_type \<Rightarrow> call_params option \<Rightarrow> api_call \<Rightarrow> state \<Rightarrow> state" where
  "emit endpointName eventType params apiCall s =
     s\<lparr>events := events s @
          [\<lparr>ev_endpoint = endpointName, ev_type = eventType,
            ev_params = params, ev_apiCall = apiCall\<rparr>]\<rparr>"

text \<open>
  The tail of \<^verbatim>\<open>call\<close> behind the \<^verbatim>\<open>try\<close> statement: normalize, emit
  \<^verbatim>\<open>success\<close> and \<^verbatim>\<open>after\<close>, return \<^verbatim>\<open>apiCall.response\<close>. The verbose logging
  of \<^verbatim>\<open>onApiSuccessResponse\<close> and of the service's \<^verbatim>\<open>onApiError\<close> is left out.
\<close>

definition completeCall ::
  "service \<Rightarrow> string \<Rightarrow> call_params option \<Rightarrow> api_call \<Rightarrow> state
     \<Rightarrow> (error + response option) \<times> call_params option \<times> state"
where
  "completeCall svc endpointName params apiCall s =
     (case normalizeResponse svc params apiCall s of
        (Inl e, s1) \<Rightarrow> (Inl e, params, s1)
      | (Inr apiCall1, s1) \<Rightarrow>
          (Inr (response apiCall1), params,
           emit endpointName AFTER params apiCall1
             (emit endpointName SUCCESS params apiCall1 s1)))"

text \<open>
  The \<^verbatim>\<open>try\<close> statement of \<^verbatim>\<open>call\<close> and what follows it: the first dispatch attempt,
  the retry attempt when the first one throws a \<^verbatim>\<open>RetryAPICall\<close>, and the two ways out.
  An error of the retry attempt that is not a \<^verbatim>\<open>RetryAPICall\<close> leaves the inner
  \<^verbatim>\<open>catch\<close> block without being thrown again, and control goes on behind the \<^verbatim>\<open>try\<close>
  statement.
\<close>

definition tryCall ::
  "service \<Rightarrow> string \<Rightarrow> call_params option \<Rightarrow> api_call \<Rightarrow> auth_strategy \<Rightarrow> state
     \<Rightarrow> (error + response option) \<times> call_params option \<times> state"
where
  "tryCall svc endpointName params apiCall authStrategy s =
     (case executeApiCall svc params apiCall (Some authStrategy) s of
        (None, apiCall1, params1, s1) \<Rightarrow> completeCall svc endpointName params1 apiCall1 s1
      | (Some err, apiCall1, params1, s1) \<Rightarrow>
          (case err of
             RetryAPICall newApiCall \<Rightarrow>
               (case executeApiCall svc params1 newApiCall (Some authStrategy) s1 of
                  (None, apiCall2, params2, s2) \<Rightarrow>
                    completeCall svc endpointName params2 apiCall2 s2
                | (Some retryError, apiCall2, params2, s2) \<Rightarrow>
                    if isRetryAPICall retryError
                    then (Inl (AuthenticationFailed apiCall2 retryError), params2, s2)
                    else completeCall svc endpointName params2 apiCall2 s2)
           | _ \<Rightarrow>
               (Inl err, params1,
                emit endpointName AFTER params1 apiCall1
                  (emit endpointName ERROR params1 apiCall1 s1))))"

text \<open>
  \<^verbatim>\<open>call(endpointName, params, eventContext, overwriteUrl)\<close>. The result is the
  rejection or the returned \<^verbatim>\<open>apiCall.response\<close> (which may be \<^verbatim>\<open>undefined\<close>), the
  caller's parameter object and the service state afterwards.
\<close>

definition call ::
  "service \<Rightarrow> string \<Rightarrow> call_params option \<Rightarrow> string option \<Rightarrow> state
     \<Rightarrow> (error + response option) \<times> call_params option \<times> state"
where
  "call svc endpointName params overwriteUrl s =
     (case map_of (endpoints svc) endpointName of
        None \<Rightarrow> (Inl (EndpointNotFound endpointName), params, s)
      | Some ep \<Rightarrow>
     (case buildAuthStrategy svc ep of
        Inl e \<Rightarrow> (Inl e, params, s)
      | Inr authStrategy \<Rightarrow>
     (case buildApiCall svc ep params authStrategy overwriteUrl of
        Inl e \<Rightarrow> (Inl e, params, s)
      | Inr apiCall \<Rightarrow>
     (case validateApiCall apiCall of
        Inl e \<Rightarrow> (Inl e, params, s)
      | Inr _ \<Rightarrow>
          tryCall svc endpointName params apiCall authStrategy
            (emit endpointName BEFORE params apiCall s)))))"

text \<open>A run of admission checks at the given clock readings.\<close>

fun admissions :: "service \<Rightarrow> (int \<times> api_call) list \<Rightarrow> state \<Rightarrow> state" where
  "admissions svc [] s = s"
| "admissions svc ((now, apiCall) # rest) s =
     admissions svc rest (snd (enforceGlobalRateLimit svc now apiCall s))"

section \<open>Fixtures\<close>

text \<open>
  The state of a freshly constructed service, and a small service after the test
  fixture of the repository (base URL \<^verbatim>\<open>http://testapi.com\<close>, five calls per window of 50
  milliseconds), used where a theorem is instantiated.
\<close>

definition initialState :: "int \<Rightarrow> state" where
  "initialState now =
     \<lparr>rateLimitWindowCounter = 0, lastWindowOverflow = 0,
      currentRateLimitWindowStart = now, rateLimitedApiCalls = [],
      events = [], logged = [], dispatched = [], refreshed = [], hooks = [], ticks = 0\<rparr>"

definition okResponse :: response where
  "okResponse = \<lparr>status = Some 200, data = None\<rparr>"

definition getEmpty :: endpoint where
  "getEmpty = \<lparr>name = ''getEmpty'', e_method = ''GET'', e_url = ''/get/empty'',
               authentication = None, e_headers = None, normalizationMapping = None\<rparr>"

definition getEmptyCall :: api_call where
  "getEmptyCall =
     \<lparr>endpoint = getEmpty,
      request = \<lparr>r_method = ''GET'', url = ''http://testapi.com/get/empty'', query = None,
                 headers = [], auth = None, payload = None\<rparr>,
      response = None\<rparr>"

definition testService :: service where
  "testService =
     \<lparr>baseUrl = ''http://testapi.com'',
      defaultAuthStrategy = NONE,
      defaultHeaders = [],
      rateLimit = 5,
      rateLimitWindowLength = 50,
      endpoints = [(''getEmpty'', getEmpty)],
      authStrategies = keyByType [],
      isApiError = (\<lambda>e. case e of TransportError st d \<Rightarrow> True | _ \<Rightarrow> False),
      onApiError = (\<lambda>params apiCall e. True),
      dryRun = False,
      lodash_get = (\<lambda>pl path. None),
      transport = (\<lambda>n apiCall. Inr okResponse),
      clock = (\<lambda>n. 10)\<rparr>"

text \<open>
  A service with one endpoint guarded by a \<^verbatim>\<open>RefreshableBearerTokenAuthStrategy\<close>, after
  the endpoint \<^verbatim>\<open>refreshableBearerAuthEndpoint\<close> of the test fixture. The strategy takes a
  401 for an expired token, its refresh yields the token \<^verbatim>\<open>123\<close>, and the transport is
  left open.
\<close>

definition refreshHooks :: refresh_hooks where
  "refreshHooks =
     \<lparr>isAccessTokenExpiredError =
        (\<lambda>apiCall e. case e of TransportError st d \<Rightarrow> st = 401 | _ \<Rightarrow> False),
      refreshAccessToken =
        (\<lambda>p. Inr \<lparr>accessToken = ''123'', refreshToken = None, expiresIn = 3600\<rparr>),
      buildRefreshAccessTokenPayload =
        Some (\<lambda>p. Some (JObj [(''refreshToken'', JStr ''r1'')]))\<rparr>"

definition refreshableStrategy :: auth_strategy where
  "refreshableStrategy =
     RefreshableBearerTokenAuthStrategy
       \<lparr>isAuthError_param = None, onAuthError_param = None\<rparr> refreshHooks"

definition refreshableEndpoint :: endpoint where
  "refreshableEndpoint =
     \<lparr>name = ''refreshableBearerAuthEndpoint'', e_method = ''GET'',
      e_url = ''/refreshable-bearer-auth'', authentication = Some REFRESHABLE_BEARER_TOKEN,
      e_headers = None, normalizationMapping = None\<rparr>"

definition refreshableService :: "(nat \<Rightarrow> api_call \<Rightarrow> error + response) \<Rightarrow> service" where
  "refreshableService tr =
     testService
       \<lparr>endpoints := [(''refreshableBearerAuthEndpoint'', refreshableEndpoint)],
        authStrategies := keyByType [refreshableStrategy],
        transport := tr\<rparr>"

definition mockParams :: call_params where
  "mockParams =
     \<lparr>pathParams = None, p_query = None, p_payload = Some (JStr ''hello''),
      p_auth = Some [(''accessToken'', ''mock_token'')], p_context = None\<rparr>"

text \<open>The call built from \<open>mockParams\<close>, and the call rebuilt after a refresh.\<close>

definition mockCall :: "string \<Rightarrow> json option \<Rightarrow> api_call" where
  "mockCall token pl =
     \<lparr>endpoint = refreshableEndpoint,
      request = \<lparr>r_method = ''GET'', url = ''http://testapi.com/refreshable-bearer-auth'',
                 query = None, headers = [(''Authorization'', ''Bearer '' @ token)],
                 auth = Some [(''accessToken'', token)], payload = pl\<rparr>,
      response = None\<rparr>"

text \<open>Transports: one that answers every request with a 401, and one that answers the
  first request with a 401 and the later ones with a 500.\<close>

definition always401 :: "nat \<Rightarrow> api_call \<Rightarrow> error + response" where
  "always401 n apiCall = Inl (TransportError 401 None)"

definition expiredThenServerError :: "nat \<Rightarrow> api_call \<Rightarrow> error + response" where
  "expiredThenServerError n apiCall =
     (if n = 0 then Inl (TransportError 401 None) else Inl (TransportError 500 None))"

text \<open>
  A service with one endpoint guarded by a \<^verbatim>\<open>BearerTokenAuthStrategy\<close> whose
  \<^verbatim>\<open>isAuthError\<close> takes every error for an authentication error and whose
  \<^verbatim>\<open>onAuthError\<close> returns \<^verbatim>\<open>false\<close>; the service hook is the default one, which returns
  \<^verbatim>\<open>true\<close>, and the transport answers 401.
\<close>

definition vetoStrategy :: auth_strategy where
  "vetoStrategy =
     BearerTokenAuthStrategy
       \<lparr>isAuthError_param = Some (\<lambda>apiCall e. True),
        onAuthError_param = Some (\<lambda>params apiCall e. Inr False)\<rparr>"

definition bearerAuthEndpoint :: endpoint where
  "bearerAuthEndpoint =
     \<lparr>name = ''bearerAuthEndpoint'', e_method = ''GET'', e_url = ''/bearer-auth'',
      authentication = Some BEARER_TOKEN, e_headers = None, normalizationMapping = None\<rparr>"

definition bearerCall :: api_call where
  "bearerCall =
     \<lparr>endpoint = bearerAuthEndpoint,
      request = \<lparr>r_method = ''GET'', url = ''http://testapi.com/bearer-auth'',
                 query = None, headers = [(''Authorization'', ''Bearer mock_token'')],
                 auth = Some [(''accessToken'', ''mock_token'')],
                 payload = Some (JStr ''hello'')\<rparr>,
      response = None\<rparr>"

definition vetoService :: service where
  "vetoService =
     testService
       \<lparr>endpoints := [(''bearerAuthEndpoint'', bearerAuthEndpoint)],
        authStrategies := keyByType [vetoStrategy],
        transport := always401\<rparr>"

text \<open>
  An endpoint like the guarded one, with a normalization function in the way of the
  test fixture's \<^verbatim>\<open>toBeNormalized\<close>: it reads the raw payload and throws a
  \<^verbatim>\<open>TypeError\<close> when there is none. The transport answers the first request with a 401
  and the later ones with the given response.
\<close>

definition normalizeRaw :: "call_params option \<Rightarrow> json option \<Rightarrow> string + json option" where
  "normalizeRaw params pl =
     (case pl of
        None \<Rightarrow> Inl ''TypeError''
      | Some v \<Rightarrow> Inr (Some (JObj [(''normalizedProperty'', v)])))"

definition normalizingEndpoint :: endpoint where
  "normalizingEndpoint =
     \<lparr>name = ''normalizedEndpoint'', e_method = ''GET'',
      e_url = ''/refreshable-bearer-auth'', authentication = Some REFRESHABLE_BEARER_TOKEN,
      e_headers = None, normalizationMapping = Some (NormFun normalizeRaw)\<rparr>"

definition normalizingCall :: "string \<Rightarrow> json option \<Rightarrow> api_call" where
  "normalizingCall token pl = (mockCall token pl)\<lparr>endpoint := normalizingEndpoint\<rparr>"

definition normalizingService :: "(nat \<Rightarrow> api_call \<Rightarrow> error + response) \<Rightarrow> service" where
  "normalizingService tr =
     (refreshableService tr)\<lparr>endpoints := [(''normalizedEndpoint'', normalizingEndpoint)]\<rparr>"

definition rawResponse :: response where
  "rawResponse = \<lparr>status = Some 200, data = Some (JStr ''raw'')\<rparr>"

definition expiredThen :: "response \<Rightarrow> nat \<Rightarrow> api_call \<Rightarrow> error + response" where
  "expiredThen resp n apiCall = (if n = 0 then Inl (TransportError 401 None) else Inr resp)"

text \<open>
  A service with endpoints that fail to construct: a path parameter left out, an
  authentication type without a strategy, a method that is not a supported verb, and a
  guarded endpoint called without auth parameters.
\<close>

definition getUserDetails :: endpoint where
  "getUserDetails =
     \<lparr>name = ''getUserDetails'', e_method = ''GET'', e_url = ''/users/:userId/details'',
      authentication = None, e_headers = None, normalizationMapping = None\<rparr>"

definition putEndpoint :: endpoint where
  "putEndpoint =
     \<lparr>name = ''putEndpoint'', e_method = ''PUT'', e_url = ''/put'',
      authentication = None, e_headers = None, normalizationMapping = None\<rparr>"

definition faultyService :: service where
  "faultyService =
     testService
       \<lparr>endpoints := [(''getUserDetails'', getUserDetails),
                      (''bearerAuthEndpoint'', bearerAuthEndpoint),
                      (''putEndpoint'', putEndpoint),
                      (''refreshableBearerAuthEndpoint'', refreshableEndpoint)],
        authStrategies := keyByType [refreshableStrategy]\<rparr>"

definition noParams :: call_params where
  "noParams = \<lparr>pathParams = None, p_query = None, p_payload = None, p_auth = None,
                p_context = None\<rparr>"

text \<open>
  Modelled from the spec: lodash's \<^verbatim>\<open>get\<close> is a library outside the repository; the
  service record takes it as the parameter \<open>lodash_get\<close>. For the example of the
  specification it is instantiated with the traversal of the payload by a dot-notation
  path (section 4.6): the path is split at the dots and each part selects a member of an
  object; a part that selects nothing gives \<^verbatim>\<open>undefined\<close>.
\<close>

fun split_on :: "char \<Rightarrow> string \<Rightarrow> string list" where
  "split_on sep [] = [[]]"
| "split_on sep (x # xs) =
     (if x = sep then [] # split_on sep xs
      else (case split_on sep xs of
              [] \<Rightarrow> [[x]]
            | w # ws \<Rightarrow> (x # w) # ws))"

fun get_in :: "json \<Rightarrow> string list \<Rightarrow> json option" where
  "get_in v [] = Some v"
| "get_in (JObj kvs) (k # ks) =
     (case map_of kvs k of None \<Rightarrow> None | Some v \<Rightarrow> get_in v ks)"
| "get_in v (k # ks) = None"

definition dot_get :: "json option \<Rightarrow> string \<Rightarrow> json option" where
  "dot_get pl path =
     (case pl of None \<Rightarrow> None | Some v \<Rightarrow> get_in v (split_on CHR ''.'' path))"

section \<open>Rate limiter: properties\<close>

lemma enforce_same_window:
  "now < nextRateLimitWindow svc s \<Longrightarrow>
   enforceGlobalRateLimit svc now apiCall s = checkRateLimit svc apiCall s"
  by (simp add: enforceGlobalRateLimit_def)

lemma enforce_new_window:
  "now \<ge> nextRateLimitWindow svc s \<Longrightarrow>
   enforceGlobalRateLimit svc now apiCall s = checkRateLimit svc apiCall (startNewWindow now s)"
  by (simp add: enforceGlobalRateLimit_def)

lemma checkRateLimit_counter_range:
  "0 \<le> rateLimitWindowCounter s \<Longrightarrow> rateLimitWindowCounter s \<le> rateLimit svc \<Longrightarrow>
   0 \<le> rateLimitWindowCounter (snd (checkRateLimit svc apiCall s)) \<and>
   rateLimitWindowCounter (snd (checkRateLimit svc apiCall s)) \<le> rateLimit svc"
  by (simp add: checkRateLimit_def)

lemma startNewWindow_fields:
  "currentRateLimitWindowStart (startNewWindow now s) = now"
  "rateLimitWindowCounter (startNewWindow now s) = 0"
  "rateLimitedApiCalls (startNewWindow now s) = []"
  by (simp_all add: startNewWindow_def Let_def)

text \<open>
  The counter stays within \<open>[0, rateLimit]\<close> along any run of admission checks that
  starts within it, rollovers included; the state of a new service is within it when the
  limit is not negative.
\<close>

lemma enforce_counter_range:
  assumes "0 \<le> rateLimitWindowCounter s" and "rateLimitWindowCounter s \<le> rateLimit svc"
  shows "0 \<le> rateLimitWindowCounter (snd (enforceGlobalRateLimit svc now apiCall s)) \<and>
         rateLimitWindowCounter (snd (enforceGlobalRateLimit svc now apiCall s)) \<le> rateLimit svc"
proof (cases "now \<ge> nextRateLimitWindow svc s")
  case True
  have "0 \<le> rateLimit svc" using assms by simp
  then show ?thesis
    using True checkRateLimit_counter_range [of "startNewWindow now s" svc apiCall]
    by (simp add: enforce_new_window startNewWindow_fields)
next
  case False
  then show ?thesis
    using assms checkRateLimit_counter_range [of s svc apiCall]
    by (simp add: enforce_same_window)
qed

lemma admissions_counter_range:
  "0 \<le> rateLimitWindowCounter s \<Longrightarrow> rateLimitWindowCounter s \<le> rateLimit svc \<Longrightarrow>
   0 \<le> rateLimitWindowCounter (admissions svc checks s) \<and>
   rateLimitWindowCounter (admissions svc checks s) \<le> rateLimit svc"
proof (induction checks arbitrary: s)
  case Nil
  then show ?case by simp
next
  case (Cons chk rest)
  obtain now apiCall where chk: "chk = (now, apiCall)" by (cases chk)
  from enforce_counter_range [OF Cons.prems, of now apiCall]
  show ?case
    unfolding chk by (simp add: Cons.IH)
qed

lemma admissions_from_initial_state:
  "0 \<le> rateLimit svc \<Longrightarrow>
   0 \<le> rateLimitWindowCounter (admissions svc checks (initialState t)) \<and>
   rateLimitWindowCounter (admissions svc checks (initialState t)) \<le> rateLimit svc"
  by (rule admissions_counter_range) (simp_all add: initialState_def)

text \<open>
  Claim C5. Within one rate-limit window (the clock reading is before the start of the
  next window), an admission check with the counter below \<^verbatim>\<open>rateLimit()\<close> admits the call
  and adds exactly one to the counter, changing nothing else; an admission check with the
  counter at or above \<^verbatim>\<open>rateLimit()\<close> appends the call to the overflow buffer and leaves
  the counter unchanged, and the dispatch attempt then fails with
  \<^verbatim>\<open>LocalRemoteAPIRateLimitExceeded\<close> without handing anything to the transport; and a
  counter that is in \<open>[0, rateLimit()]\<close> at an admission check is still in it afterwards.
\<close>

theorem rate_limit_within_window:
  assumes "now < nextRateLimitWindow svc s"
  shows "(rateLimitWindowCounter s < rateLimit svc \<longrightarrow>
            enforceGlobalRateLimit svc now apiCall s =
              (False, s\<lparr>rateLimitWindowCounter := rateLimitWindowCounter s + 1\<rparr>))
       \<and> (rateLimitWindowCounter s \<ge> rateLimit svc \<longrightarrow>
            enforceGlobalRateLimit svc now apiCall s =
              (True, s\<lparr>rateLimitedApiCalls := rateLimitedApiCalls s @ [apiCall]\<rparr>))
       \<and> (rateLimitWindowCounter s \<ge> rateLimit svc \<and> now = clock svc (ticks s) \<longrightarrow>
            executeApiCall svc params apiCall authStrategy s =
              (Some (LocalRemoteAPIRateLimitExceeded apiCall), apiCall, params,
               s\<lparr>ticks := Suc (ticks s),
                  rateLimitedApiCalls := rateLimitedApiCalls s @ [apiCall]\<rparr>))
       \<and> (0 \<le> rateLimitWindowCounter s \<and> rateLimitWindowCounter s \<le> rateLimit svc \<longrightarrow>
            0 \<le> rateLimitWindowCounter (snd (enforceGlobalRateLimit svc now apiCall s)) \<and>
            rateLimitWindowCounter (snd (enforceGlobalRateLimit svc now apiCall s)) \<le> rateLimit svc)"
proof -
  have same: "enforceGlobalRateLimit svc now apiCall s = checkRateLimit svc apiCall s"
    using assms by (rule enforce_same_window)
  have admit: "rateLimitWindowCounter s < rateLimit svc \<longrightarrow>
      checkRateLimit svc apiCall s =
        (False, s\<lparr>rateLimitWindowCounter := rateLimitWindowCounter s + 1\<rparr>)"
    by (simp add: checkRateLimit_def)
  have reject: "rateLimitWindowCounter s \<ge> rateLimit svc \<longrightarrow>
      checkRateLimit svc apiCall s =
        (True, s\<lparr>rateLimitedApiCalls := rateLimitedApiCalls s @ [apiCall]\<rparr>)"
    by (simp add: checkRateLimit_def)
  have exec: "rateLimitWindowCounter s \<ge> rateLimit svc \<and> now = clock svc (ticks s) \<longrightarrow>
      executeApiCall svc params apiCall authStrategy s =
        (Some (LocalRemoteAPIRateLimitExceeded apiCall), apiCall, params,
         s\<lparr>ticks := Suc (ticks s),
            rateLimitedApiCalls := rateLimitedApiCalls s @ [apiCall]\<rparr>)"
    using assms
    by (simp add: executeApiCall_def enforceGlobalRateLimit_def nextRateLimitWindow_def
        checkRateLimit_def)
  have range: "0 \<le> rateLimitWindowCounter s \<and> rateLimitWindowCounter s \<le> rateLimit svc \<longrightarrow>
      0 \<le> rateLimitWindowCounter (snd (checkRateLimit svc apiCall s)) \<and>
      rateLimitWindowCounter (snd (checkRateLimit svc apiCall s)) \<le> rateLimit svc"
    using checkRateLimit_counter_range by blast
  show ?thesis
    using admit reject exec range unfolding same by blast
qed

theorem rate_limit_within_window_witness:
  "enforceGlobalRateLimit testService 10 getEmptyCall (initialState 0) =
     (False, (initialState 0)\<lparr>rateLimitWindowCounter := 1\<rparr>)
   \<and> executeApiCall testService None getEmptyCall None
        ((initialState 0)\<lparr>rateLimitWindowCounter := 5\<rparr>) =
     (Some (LocalRemoteAPIRateLimitExceeded getEmptyCall), getEmptyCall, None,
      (initialState 0)\<lparr>rateLimitWindowCounter := 5, ticks := 1,
                        rateLimitedApiCalls := [getEmptyCall]\<rparr>)
   \<and> rateLimitWindowCounter (snd (enforceGlobalRateLimit testService 10 getEmptyCall
        ((initialState 0)\<lparr>rateLimitWindowCounter := 5\<rparr>))) \<le> 5"
proof -
  have w1: "(10::int) < nextRateLimitWindow testService (initialState 0)"
    by (simp add: nextRateLimitWindow_def testService_def initialState_def)
  have w2: "(10::int) < nextRateLimitWindow testService
              ((initialState 0)\<lparr>rateLimitWindowCounter := 5\<rparr>)"
    by (simp add: nextRateLimitWindow_def testService_def initialState_def)
  have r: "rateLimit testService = 5" "clock testService = (\<lambda>n. 10)"
    by (simp_all add: testService_def)
  show ?thesis
    using rate_limit_within_window [OF w1, of getEmptyCall None None]
          rate_limit_within_window [OF w2, of getEmptyCall None None]
    by (simp add: r initialState_def)
qed

text \<open>
  Claim C6. At an admission check whose clock reading is at or past the start of the next
  window, a fresh window is started before the limit test: the window start is the clock
  reading, the counter is 0 and the overflow buffer is empty when the limit is tested;
  so, with a positive \<^verbatim>\<open>rateLimit()\<close>, the call is admitted and is the first of the new
  window.
\<close>

theorem window_rollover:
  assumes "now \<ge> nextRateLimitWindow svc s"
  shows "enforceGlobalRateLimit svc now apiCall s =
           checkRateLimit svc apiCall (startNewWindow now s)
       \<and> currentRateLimitWindowStart (startNewWindow now s) = now
       \<and> rateLimitWindowCounter (startNewWindow now s) = 0
       \<and> rateLimitedApiCalls (startNewWindow now s) = []
       \<and> (0 < rateLimit svc \<longrightarrow>
            enforceGlobalRateLimit svc now apiCall s =
              (False, (startNewWindow now s)\<lparr>rateLimitWindowCounter := 1\<rparr>))"
  using assms
  by (simp add: enforce_new_window startNewWindow_fields checkRateLimit_def)

theorem window_rollover_witness:
  "enforceGlobalRateLimit testService 60 getEmptyCall
     ((initialState 0)\<lparr>rateLimitWindowCounter := 5, rateLimitedApiCalls := [getEmptyCall]\<rparr>) =
   (False, (initialState 60)\<lparr>rateLimitWindowCounter := 1, lastWindowOverflow := 1,
                              logged := [LogWarn ''SENDING RATE LIMITED'']\<rparr>)"
proof -
  have w: "(60::int) \<ge> nextRateLimitWindow testService
             ((initialState 0)\<lparr>rateLimitWindowCounter := 5, rateLimitedApiCalls := [getEmptyCall]\<rparr>)"
    by (simp add: nextRateLimitWindow_def testService_def initialState_def)
  have r: "0 < rateLimit testService"
    by (simp add: testService_def)
  have "enforceGlobalRateLimit testService 60 getEmptyCall
          ((initialState 0)\<lparr>rateLimitWindowCounter := 5, rateLimitedApiCalls := [getEmptyCall]\<rparr>) =
        (False, (startNewWindow 60
          ((initialState 0)\<lparr>rateLimitWindowCounter := 5, rateLimitedApiCalls := [getEmptyCall]\<rparr>))
             \<lparr>rateLimitWindowCounter := 1\<rparr>)"
    using window_rollover [OF w, of getEmptyCall] r by blast
  then show ?thesis
    by (simp add: startNewWindow_def initialState_def)
qed

section \<open>Pipeline: what each step leaves untouched\<close>

text \<open>
  The rate limiter, the error hooks and the normalizer do not hand anything to the
  transport and emit no event; a dispatch attempt hands at most one request to the
  transport.
\<close>

lemma startNewWindow_traces [simp]:
  "dispatched (startNewWindow now s) = dispatched s"
  "events (startNewWindow now s) = events s"
  "refreshed (startNewWindow now s) = refreshed s"
  "hooks (startNewWindow now s) = hooks s"
  "ticks (startNewWindow now s) = ticks s"
  by (simp_all add: startNewWindow_def Let_def)

lemma checkRateLimit_traces [simp]:
  "dispatched (snd (checkRateLimit svc c s)) = dispatched s"
  "events (snd (checkRateLimit svc c s)) = events s"
  "refreshed (snd (checkRateLimit svc c s)) = refreshed s"
  "hooks (snd (checkRateLimit svc c s)) = hooks s"
  "ticks (snd (checkRateLimit svc c s)) = ticks s"
  by (simp_all add: checkRateLimit_def)

lemma enforce_traces [simp]:
  "dispatched (snd (enforceGlobalRateLimit svc now c s)) = dispatched s"
  "events (snd (enforceGlobalRateLimit svc now c s)) = events s"
  "refreshed (snd (enforceGlobalRateLimit svc now c s)) = refreshed s"
  "hooks (snd (enforceGlobalRateLimit svc now c s)) = hooks s"
  "ticks (snd (enforceGlobalRateLimit svc now c s)) = ticks s"
  by (simp_all add: enforceGlobalRateLimit_def)

lemma refreshable_onApiError_traces:
  assumes "refreshable_onApiError svc h r ps c err s = (res, c1, p1, s1)"
  shows "dispatched s1 = dispatched s \<and> events s1 = events s \<and> hooks s1 = hooks s"
  using assms
  by (auto simp: refreshable_onApiError_def Let_def split: if_splits option.splits sum.splits)

lemma strategy_onApiError_traces:
  assumes "strategy_onApiError svc strategy ps c err s = (res, c1, p1, s1)"
  shows "dispatched s1 = dispatched s \<and> events s1 = events s \<and> hooks s1 = hooks s"
proof (cases strategy)
  case (RefreshableBearerTokenAuthStrategy h r)
  then show ?thesis using assms refreshable_onApiError_traces by simp
qed (use assms in auto)

lemma executeApiCall_dispatched:
  assumes "executeApiCall svc ps c strat s = (res, c1, p1, s1)"
  shows "dispatched s1 = dispatched s \<or> dispatched s1 = dispatched s @ [c]"
proof -
  obtain b sa where e: "enforceGlobalRateLimit svc (clock svc (ticks s)) c (s\<lparr>ticks := Suc (ticks s)\<rparr>) = (b, sa)"
    by (cases "enforceGlobalRateLimit svc (clock svc (ticks s)) c (s\<lparr>ticks := Suc (ticks s)\<rparr>)")
  have d: "dispatched sa = dispatched s"
    using enforce_traces(1) [of svc "clock svc (ticks s)" c "s\<lparr>ticks := Suc (ticks s)\<rparr>"] e by simp
  show ?thesis
    using assms e d
    by (auto simp: executeApiCall_def Let_def
        split: if_splits option.splits sum.splits prod.splits bool.splits
        dest!: strategy_onApiError_traces)
qed


lemma normalizeEntries_traces:
  "normalizeEntries get mapping pl acc s = (obj, s1) \<Longrightarrow>
   dispatched s1 = dispatched s \<and> events s1 = events s \<and> refreshed s1 = refreshed s"
  by (induction get mapping pl acc s rule: normalizeEntries.induct)
     (auto split: option.splits)

lemma normalizeResponse_traces:
  assumes "normalizeResponse svc ps c s = (res, s1)"
  shows "dispatched s1 = dispatched s \<and> events s1 = events s \<and> refreshed s1 = refreshed s"
  using assms
  by (auto simp: normalizeResponse_def normalizeWithObjectMapping_def
      split: option.splits normalization.splits prod.splits sum.splits
      dest: normalizeEntries_traces)

lemma emit_traces [simp]:
  "dispatched (emit n t ps c s) = dispatched s"
  "refreshed (emit n t ps c s) = refreshed s"
  "ticks (emit n t ps c s) = ticks s"
  "events (emit n t ps c s) =
     events s @ [\<lparr>ev_endpoint = n, ev_type = t, ev_params = ps, ev_apiCall = c\<rparr>]"
  by (simp_all add: emit_def)

lemma completeCall_dispatched:
  assumes "completeCall svc n ps c s = (res, p1, s1)"
  shows "dispatched s1 = dispatched s"
  using assms
  by (auto simp: completeCall_def split: prod.splits sum.splits dest: normalizeResponse_traces)

lemma executeApiCall_dispatched_le:
  "length (dispatched (snd (snd (snd (executeApiCall svc ps c strat s))))) \<le> Suc (length (dispatched s))"
proof -
  obtain res c1 p1 s1 where e: "executeApiCall svc ps c strat s = (res, c1, p1, s1)"
    by (cases "executeApiCall svc ps c strat s") auto
  from executeApiCall_dispatched [OF e] show ?thesis
    unfolding e by auto
qed

lemma completeCall_dispatched_eq:
  "dispatched (snd (snd (completeCall svc n ps c s))) = dispatched s"
proof -
  obtain res p1 s1 where e: "completeCall svc n ps c s = (res, p1, s1)"
    by (cases "completeCall svc n ps c s") auto
  from completeCall_dispatched [OF e] show ?thesis
    unfolding e by simp
qed

lemma tryCall_dispatched_le:
  "length (dispatched (snd (snd (tryCall svc n ps c strat s)))) \<le> length (dispatched s) + 2"
proof -
  obtain res c1 p1 s1 where e1: "executeApiCall svc ps c (Some strat) s = (res, c1, p1, s1)"
    by (cases "executeApiCall svc ps c (Some strat) s") auto
  have d1: "length (dispatched s1) \<le> Suc (length (dispatched s))"
    using executeApiCall_dispatched_le [of svc ps c "Some strat" s] by (simp add: e1)
  show ?thesis
  proof (cases res)
    case None
    then show ?thesis
      using d1 by (simp add: tryCall_def e1 completeCall_dispatched_eq)
  next
    case (Some err)
    show ?thesis
    proof (cases "isRetryAPICall err")
      case False
      then show ?thesis
        using d1 Some by (cases err) (simp_all add: tryCall_def e1)
    next
      case True
      then obtain c' where err: "err = RetryAPICall c'"
        by (cases err) simp_all
      obtain res2 c2 p2 s2 where
        e2: "executeApiCall svc p1 c' (Some strat) s1 = (res2, c2, p2, s2)"
        by (cases "executeApiCall svc p1 c' (Some strat) s1") auto
      have d2: "length (dispatched s2) \<le> Suc (length (dispatched s1))"
        using executeApiCall_dispatched_le [of svc p1 c' "Some strat" s1] by (simp add: e2)
      show ?thesis
        using d1 d2 Some err
        by (cases res2) (simp_all add: tryCall_def e1 e2 completeCall_dispatched_eq)
    qed
  qed
qed

lemma call_dispatched_le:
  "length (dispatched (snd (snd (call svc n ps ovr s)))) \<le> length (dispatched s) + 2"
  using tryCall_dispatched_le [of svc n ps _ _ "emit n BEFORE ps _ s"]
  by (simp add: call_def split: option.splits sum.splits)

section \<open>Call pipeline: properties\<close>

lemmas pipeline_defs = call_def tryCall_def executeApiCall_def completeCall_def
  normalizeResponse_def buildApiCall_def buildAuthStrategy_def validateApiCall_def
  constructUrl_def resolveBaseUrl_def validatePathParams_def replacePathParams_def
  addDefaultHeaders_def token_execute_def obj_spread_def lower_char_def emit_def
  enforceGlobalRateLimit_def checkRateLimit_def startNewWindow_def nextRateLimitWindow_def
  refreshable_onApiError_def base_onApiError_def isAuthError_def onAuthError_def
  is_word_char_def keyByType_def Let_def

lemmas fixture_defs = refreshHooks_def refreshableStrategy_def refreshableEndpoint_def
  refreshableService_def mockParams_def mockCall_def testService_def initialState_def
  okResponse_def

lemma tryCall_second_retry:
  assumes "executeApiCall svc ps c (Some strat) s = (Some (RetryAPICall c'), c1, p1, s1)"
    and "executeApiCall svc p1 c' (Some strat) s1 = (Some (RetryAPICall c''), c2, p2, s2)"
  shows "tryCall svc n ps c strat s = (Inl (AuthenticationFailed c2 (RetryAPICall c'')), p2, s2)"
  using assms by (simp add: tryCall_def)

lemma call_constructed:
  assumes "map_of (endpoints svc) n = Some ep" and "buildAuthStrategy svc ep = Inr strat"
    and "buildApiCall svc ep ps strat ovr = Inr c" and "validateApiCall c = Inr ()"
  shows "call svc n ps ovr s = tryCall svc n ps c strat (emit n BEFORE ps c s)"
  using assms by (simp add: call_def)

text \<open>
  Claim C2. When the first dispatch attempt of a call throws a \<^verbatim>\<open>RetryAPICall\<close> and the
  retry attempt throws a \<^verbatim>\<open>RetryAPICall\<close> again, \<^verbatim>\<open>call\<close> rejects with
  \<^verbatim>\<open>AuthenticationFailed\<close> wrapping the second signal, in the state the retry attempt
  left; and no call hands more than two requests to the transport.
\<close>

theorem second_retry_is_fatal:
  "(map_of (endpoints svc) n = Some ep \<and> buildAuthStrategy svc ep = Inr strat \<and>
    buildApiCall svc ep ps strat ovr = Inr c \<and> validateApiCall c = Inr () \<and>
    executeApiCall svc ps c (Some strat) (emit n BEFORE ps c s) =
      (Some (RetryAPICall c'), c1, p1, s1) \<and>
    executeApiCall svc p1 c' (Some strat) s1 = (Some (RetryAPICall c''), c2, p2, s2)
    \<longrightarrow> call svc n ps ovr s = (Inl (AuthenticationFailed c2 (RetryAPICall c'')), p2, s2))
   \<and> length (dispatched (snd (snd (call svc n ps ovr s)))) \<le> length (dispatched s) + 2"
  using call_constructed tryCall_second_retry call_dispatched_le by auto

theorem second_retry_is_fatal_witness:
  "fst (call (refreshableService always401) ''refreshableBearerAuthEndpoint''
          (Some mockParams) None (initialState 0)) =
     Inl (AuthenticationFailed (mockCall ''123'' (Some (JStr ''hello'')))
            (RetryAPICall (mockCall ''123'' (Some (JObj [(''refreshToken'', JStr ''r1'')])))))
   \<and> length (dispatched (snd (snd (call (refreshableService always401)
          ''refreshableBearerAuthEndpoint'' (Some mockParams) None (initialState 0))))) \<le> 2"
proof -
  let ?svc = "refreshableService always401"
  let ?n = "''refreshableBearerAuthEndpoint''"
  let ?c = "mockCall ''mock_token'' (Some (JStr ''hello''))"
  let ?c' = "mockCall ''123'' (Some (JStr ''hello''))"
  let ?c'' = "mockCall ''123'' (Some (JObj [(''refreshToken'', JStr ''r1'')]))"
  define r1 where "r1 = executeApiCall ?svc (Some mockParams) ?c (Some refreshableStrategy)
                          (emit ?n BEFORE (Some mockParams) ?c (initialState 0))"
  define r2 where "r2 = executeApiCall ?svc (fst (snd (snd r1))) ?c' (Some refreshableStrategy)
                          (snd (snd (snd r1)))"
  have h1: "map_of (endpoints ?svc) ?n = Some refreshableEndpoint"
    by (simp add: refreshableService_def)
  have h2: "buildAuthStrategy ?svc refreshableEndpoint = Inr refreshableStrategy"
    by (simp add: buildAuthStrategy_def refreshableService_def refreshableEndpoint_def
        keyByType_def refreshableStrategy_def)
  have h3: "buildApiCall ?svc refreshableEndpoint (Some mockParams) refreshableStrategy None = Inr ?c"
    by (simp add: pipeline_defs fixture_defs)
  have h4: "validateApiCall ?c = Inr ()"
    by (simp add: validateApiCall_def lower_char_def mockCall_def)
  have "fst r1 = Some (RetryAPICall ?c')"
    unfolding r1_def by (simp add: pipeline_defs fixture_defs always401_def)
  then have h5: "r1 = (Some (RetryAPICall ?c'), fst (snd r1), fst (snd (snd r1)), snd (snd (snd r1)))"
    by (cases r1) auto
  have "fst r2 = Some (RetryAPICall ?c'')" and c2: "fst (snd r2) = ?c'"
    unfolding r2_def r1_def by (simp_all add: pipeline_defs fixture_defs always401_def)
  then have h6: "r2 = (Some (RetryAPICall ?c''), ?c', fst (snd (snd r2)), snd (snd (snd r2)))"
    by (cases r2) auto
  have d: "dispatched (initialState 0) = []"
    by (simp add: initialState_def)
  have main:
    "call ?svc ?n (Some mockParams) None (initialState 0) =
       (Inl (AuthenticationFailed ?c' (RetryAPICall ?c'')),
        fst (snd (snd r2)), snd (snd (snd r2)))
     \<and> length (dispatched (snd (snd (call ?svc ?n (Some mockParams) None (initialState 0)))))
         \<le> length (dispatched (initialState 0)) + 2"
    using second_retry_is_fatal [where svc = ?svc and n = ?n and ep = refreshableEndpoint
        and strat = refreshableStrategy and ps = "Some mockParams" and ovr = None
        and c = ?c and c' = ?c' and ?c1.0 = "fst (snd r1)" and ?p1.0 = "fst (snd (snd r1))"
        and ?s1.0 = "snd (snd (snd r1))" and c'' = ?c'' and ?c2.0 = ?c'
        and ?p2.0 = "fst (snd (snd r2))" and ?s2.0 = "snd (snd (snd r2))"
        and s = "initialState 0"]
      h1 h2 h3 h4 h5 h6
    unfolding r1_def [symmetric] r2_def [symmetric]
    by blast
  have res: "fst (call ?svc ?n (Some mockParams) None (initialState 0)) =
      Inl (AuthenticationFailed ?c' (RetryAPICall ?c''))"
    using main by simp
  have bound: "length (dispatched (snd (snd (call ?svc ?n (Some mockParams) None (initialState 0)))))
      \<le> 2"
    using conjunct2 [OF main] by (simp add: d)
  show ?thesis
    using res bound by (rule conjI)
qed

text \<open>
  An error of the retry attempt that is not a \<^verbatim>\<open>RetryAPICall\<close> is dropped: the call
  goes on as after a successful attempt.
\<close>

lemma tryCall_retry_error_completes:
  assumes "executeApiCall svc ps c (Some strat) s = (Some (RetryAPICall c'), c1, p1, s1)"
    and "executeApiCall svc p1 c' (Some strat) s1 = (Some retryError, c2, p2, s2)"
    and "\<not> isRetryAPICall retryError"
  shows "tryCall svc n ps c strat s = completeCall svc n p2 c2 s2"
  using assms by (simp add: tryCall_def)

text \<open>
  Claim C1, evaluated on the code. The first attempt is answered 401, which the strategy
  takes for an expired token, refreshes and signals a retry; the retry attempt is
  answered 500 and throws that error, which is not a retry signal. The claim asks for the
  events \<^verbatim>\<open>error\<close> and \<^verbatim>\<open>after\<close> and a rejection with the 500; the call resolves with
  \<^verbatim>\<open>undefined\<close> and emits \<^verbatim>\<open>before\<close>, \<^verbatim>\<open>success\<close>, \<^verbatim>\<open>after\<close>.
\<close>

theorem retry_error_is_swallowed:
  "fst (executeApiCall (refreshableService expiredThenServerError) (Some mockParams)
          (mockCall ''mock_token'' (Some (JStr ''hello''))) (Some refreshableStrategy)
          (emit ''refreshableBearerAuthEndpoint'' BEFORE (Some mockParams)
             (mockCall ''mock_token'' (Some (JStr ''hello''))) (initialState 0))) =
     Some (RetryAPICall (mockCall ''123'' (Some (JStr ''hello''))))
   \<and> fst (executeApiCall (refreshableService expiredThenServerError)
          (Some (mockParams\<lparr>p_payload := Some (JObj [(''refreshToken'', JStr ''r1'')])\<rparr>))
          (mockCall ''123'' (Some (JStr ''hello''))) (Some refreshableStrategy)
          (snd (snd (snd (executeApiCall (refreshableService expiredThenServerError)
             (Some mockParams) (mockCall ''mock_token'' (Some (JStr ''hello'')))
             (Some refreshableStrategy)
             (emit ''refreshableBearerAuthEndpoint'' BEFORE (Some mockParams)
                (mockCall ''mock_token'' (Some (JStr ''hello''))) (initialState 0))))))) =
     Some (TransportError 500 None)
   \<and> fst (call (refreshableService expiredThenServerError) ''refreshableBearerAuthEndpoint''
          (Some mockParams) None (initialState 0)) = Inr None
   \<and> map ev_type (events (snd (snd (call (refreshableService expiredThenServerError)
          ''refreshableBearerAuthEndpoint'' (Some mockParams) None (initialState 0))))) =
     [BEFORE, SUCCESS, AFTER]"
  by (simp add: pipeline_defs fixture_defs expiredThenServerError_def)

text \<open>
  What a dispatch attempt does with a provider error when the strategy's hook returns a
  boolean \<open>b\<close>: the strategy's hook runs first, the service hook second, and the
  outcome is that of the service hook alone; \<open>b\<close> does not occur in it.
\<close>

lemma executeApiCall_both_hooks:
  assumes "enforceGlobalRateLimit svc (clock svc (ticks s)) c (s\<lparr>ticks := Suc (ticks s)\<rparr>) = (False, sa)"
    and "\<not> dryRun svc"
    and "transport svc (length (dispatched sa)) c = Inl err"
    and "isApiError svc err"
    and "strategy_onApiError svc strat ps c err
           (sa\<lparr>dispatched := dispatched sa @ [c], hooks := hooks sa @ [AuthStrategyHook]\<rparr>) =
         (Inr b, c1, p1, s3)"
  shows "executeApiCall svc ps c (Some strat) s =
           (if onApiError svc p1 c1 err
            then (Some err, c1, p1, s3\<lparr>hooks := hooks s3 @ [ServiceHook]\<rparr>)
            else (None, c1\<lparr>response := None\<rparr>, p1, s3\<lparr>hooks := hooks s3 @ [ServiceHook]\<rparr>))"
  using assms by (simp add: executeApiCall_def Let_def)

text \<open>
  Claim C4, evaluated on the code. The strategy's \<^verbatim>\<open>onApiError\<close> returns \<^verbatim>\<open>false\<close> without
  throwing and runs before the service hook; the claim asks that the error does not leave
  the attempt then, but the attempt throws it and the call rejects with it.
\<close>

theorem strategy_veto_is_ignored:
  "fst (strategy_onApiError vetoService vetoStrategy (Some mockParams) bearerCall
          (TransportError 401 None) (initialState 0)) = Inr False
   \<and> fst (executeApiCall vetoService (Some mockParams) bearerCall (Some vetoStrategy)
          (initialState 0)) = Some (TransportError 401 None)
   \<and> hooks (snd (snd (snd (executeApiCall vetoService (Some mockParams) bearerCall
          (Some vetoStrategy) (initialState 0))))) = [AuthStrategyHook, ServiceHook]
   \<and> fst (call vetoService ''bearerAuthEndpoint'' (Some mockParams) None (initialState 0)) =
     Inl (TransportError 401 None)
   \<and> map ev_type (events (snd (snd (call vetoService ''bearerAuthEndpoint''
          (Some mockParams) None (initialState 0))))) = [BEFORE, ERROR, AFTER]"
  by (simp add: pipeline_defs fixture_defs always401_def vetoStrategy_def vetoService_def
      bearerAuthEndpoint_def bearerCall_def)

section \<open>Token refresh and retry: properties\<close>

text \<open>
  Whether the rate limiter admits a call, and the counter and window start it leaves,
  depend on the counter and the window start only.
\<close>

lemma enforce_cong:
  assumes "rateLimitWindowCounter x = rateLimitWindowCounter y"
    and "currentRateLimitWindowStart x = currentRateLimitWindowStart y"
  shows "fst (enforceGlobalRateLimit svc now c x) = fst (enforceGlobalRateLimit svc now c' y)"
    and "rateLimitWindowCounter (snd (enforceGlobalRateLimit svc now c x)) =
         rateLimitWindowCounter (snd (enforceGlobalRateLimit svc now c' y))"
    and "currentRateLimitWindowStart (snd (enforceGlobalRateLimit svc now c x)) =
         currentRateLimitWindowStart (snd (enforceGlobalRateLimit svc now c' y))"
  using assms
  by (simp_all add: enforceGlobalRateLimit_def checkRateLimit_def startNewWindow_def
      nextRateLimitWindow_def Let_def)

lemma executeApiCall_success:
  assumes "\<not> fst (enforceGlobalRateLimit svc (clock svc (ticks s)) c (s\<lparr>ticks := Suc (ticks s)\<rparr>))"
    and "\<not> dryRun svc"
    and "transport svc (length (dispatched s)) c = Inr resp"
  shows "executeApiCall svc ps c strat s =
           (None, c\<lparr>response := Some resp\<rparr>, ps,
            (snd (enforceGlobalRateLimit svc (clock svc (ticks s)) c (s\<lparr>ticks := Suc (ticks s)\<rparr>)))
              \<lparr>dispatched := dispatched s @ [c]\<rparr>)"
proof -
  obtain b sa where e: "enforceGlobalRateLimit svc (clock svc (ticks s)) c (s\<lparr>ticks := Suc (ticks s)\<rparr>) = (b, sa)"
    by (cases "enforceGlobalRateLimit svc (clock svc (ticks s)) c (s\<lparr>ticks := Suc (ticks s)\<rparr>)")
  have d: "dispatched sa = dispatched s"
    using enforce_traces(1) [of svc "clock svc (ticks s)" c "s\<lparr>ticks := Suc (ticks s)\<rparr>"] e by simp
  show ?thesis
    using assms e d by (simp add: executeApiCall_def Let_def)
qed

text \<open>
  \<^verbatim>\<open>buildApiCall\<close> copies payload and auth parameters from the parameter object, starts
  without a response, and fails only for a missing path parameter or invalid auth
  parameters.
\<close>

lemma token_execute_fields:
  assumes "token_execute header pre c = Inr c'"
  shows "endpoint c' = endpoint c \<and> response c' = response c \<and>
         auth (request c') = auth (request c) \<and> payload (request c') = payload (request c) \<and>
         url (request c') = url (request c) \<and> r_method (request c') = r_method (request c)"
  using assms
  by (auto simp: token_execute_def split: option.splits if_splits)

lemma execute_fields:
  assumes "execute strategy c = Inr c'"
  shows "endpoint c' = endpoint c \<and> response c' = response c \<and>
         auth (request c') = auth (request c) \<and> payload (request c') = payload (request c) \<and>
         url (request c') = url (request c) \<and> r_method (request c') = r_method (request c)"
  using assms by (cases strategy) (auto dest: token_execute_fields)

lemma buildApiCall_fields:
  assumes "buildApiCall svc ep (Some p) strategy ovr = Inr c"
  shows "endpoint c = ep \<and> response c = None \<and>
         auth (request c) = p_auth p \<and> payload (request c) = p_payload p \<and>
         r_method (request c) = e_method ep"
  using assms
  by (auto simp: buildApiCall_def addDefaultHeaders_def split: sum.splits dest!: execute_fields)

lemma map_of_obj_set: "map_of (obj_set k v kvs) k = Some v"
  by (induction kvs) auto

lemma constructUrl_error:
  "constructUrl svc u pps = Inl e \<Longrightarrow> \<exists>m. e = MissingPathParameter u m"
  by (auto simp: constructUrl_def validatePathParams_def Let_def
      split: sum.splits if_splits option.splits)

lemma execute_error:
  "execute strategy c = Inl e \<Longrightarrow> e = InvalidAuthParams c"
  by (cases strategy) (auto simp: token_execute_def split: option.splits if_splits)

lemma buildApiCall_error:
  assumes "buildApiCall svc ep ps strategy ovr = Inl e"
  shows "(\<exists>m. e = MissingPathParameter (e_url ep) m) \<or> (\<exists>c. e = InvalidAuthParams c)"
  using assms
  by (auto simp: buildApiCall_def split: sum.splits option.splits if_splits
      dest: constructUrl_error execute_error)

lemma buildApiCall_not_retry:
  "buildApiCall svc ep ps strategy ovr = Inl e \<Longrightarrow> \<not> isRetryAPICall e"
  by (auto dest: buildApiCall_error)

text \<open>
  The refresh branch of \<^verbatim>\<open>RefreshableBearerTokenAuthStrategy.onApiError\<close>: the caller's
  parameter object is left with the refresh payload whatever happens next, and when the
  refresh and the rebuild succeed the hook throws the retry signal with the rebuilt call.
\<close>

lemma refreshable_onApiError_params:
  assumes "isAccessTokenExpiredError r c err"
    and "buildRefreshAccessTokenPayload r = Some build"
  shows "fst (snd (snd (refreshable_onApiError svc h r (Some p) c err s))) =
           Some (p\<lparr>p_payload := build p\<rparr>)"
    and "refreshed (snd (snd (snd (refreshable_onApiError svc h r (Some p) c err s)))) =
           refreshed s @ [p\<lparr>p_payload := build p\<rparr>]"
  using assms
  by (auto simp: refreshable_onApiError_def Let_def split: sum.splits)

lemma refreshable_onApiError_retry:
  assumes "isAccessTokenExpiredError r c err"
    and "buildRefreshAccessTokenPayload r = Some build"
    and "refreshAccessToken r (p\<lparr>p_payload := build p\<rparr>) = Inr tok"
    and "buildApiCall svc (endpoint c)
           (Some (p\<lparr>p_auth := Some (obj_set ''accessToken'' (accessToken tok)
                                  (case p_auth p of None \<Rightarrow> [] | Some a \<Rightarrow> a))\<rparr>))
           (RefreshableBearerTokenAuthStrategy h r) None = Inr c'"
  shows "refreshable_onApiError svc h r (Some p) c err s =
           (Inl (RetryAPICall c'),
            c\<lparr>request := (request c)
                 \<lparr>auth := Some (obj_set ''accessToken'' (accessToken tok)
                            (case auth (request c) of None \<Rightarrow> [] | Some a \<Rightarrow> a))\<rparr>\<rparr>,
            Some (p\<lparr>p_payload := build p\<rparr>),
            s\<lparr>refreshed := refreshed s @ [p\<lparr>p_payload := build p\<rparr>]\<rparr>)"
  using assms
  by (simp add: refreshable_onApiError_def Let_def)

lemma rebuilt_call_fields:
  assumes "buildApiCall svc ep
           (Some (p\<lparr>p_auth := Some (obj_set ''accessToken'' t
                                  (case p_auth p of None \<Rightarrow> [] | Some a \<Rightarrow> a))\<rparr>))
           strategy None = Inr c'"
  shows "payload (request c') = p_payload p"
    and "\<exists>a. auth (request c') = Some a \<and> map_of a ''accessToken'' = Some t"
    and "endpoint c' = ep"
    and "response c' = None"
  using buildApiCall_fields [OF assms] by (simp_all add: map_of_obj_set)

lemma executeApiCall_refresh:
  assumes "\<not> fst (enforceGlobalRateLimit svc (clock svc (ticks s)) c (s\<lparr>ticks := Suc (ticks s)\<rparr>))"
    and "\<not> dryRun svc"
    and "transport svc (length (dispatched s)) c = Inl err"
    and "isApiError svc err"
    and "isAccessTokenExpiredError r c err"
    and "buildRefreshAccessTokenPayload r = Some build"
    and "refreshAccessToken r (p\<lparr>p_payload := build p\<rparr>) = Inr tok"
    and "buildApiCall svc (endpoint c)
           (Some (p\<lparr>p_auth := Some (obj_set ''accessToken'' (accessToken tok)
                                  (case p_auth p of None \<Rightarrow> [] | Some a \<Rightarrow> a))\<rparr>))
           (RefreshableBearerTokenAuthStrategy h r) None = Inr c'"
  shows "executeApiCall svc (Some p) c (Some (RefreshableBearerTokenAuthStrategy h r)) s =
           (Some (RetryAPICall c'),
            c\<lparr>request := (request c)
                 \<lparr>auth := Some (obj_set ''accessToken'' (accessToken tok)
                            (case auth (request c) of None \<Rightarrow> [] | Some a \<Rightarrow> a))\<rparr>\<rparr>,
            Some (p\<lparr>p_payload := build p\<rparr>),
            (snd (enforceGlobalRateLimit svc (clock svc (ticks s)) c (s\<lparr>ticks := Suc (ticks s)\<rparr>)))
              \<lparr>dispatched := dispatched s @ [c],
               hooks := hooks s @ [AuthStrategyHook],
               refreshed := refreshed s @ [p\<lparr>p_payload := build p\<rparr>]\<rparr>)"
proof -
  obtain b sa where e: "enforceGlobalRateLimit svc (clock svc (ticks s)) c (s\<lparr>ticks := Suc (ticks s)\<rparr>) = (b, sa)"
    by (cases "enforceGlobalRateLimit svc (clock svc (ticks s)) c (s\<lparr>ticks := Suc (ticks s)\<rparr>)")
  have d: "dispatched sa = dispatched s" "hooks sa = hooks s" "refreshed sa = refreshed s"
    using enforce_traces [of svc "clock svc (ticks s)" c "s\<lparr>ticks := Suc (ticks s)\<rparr>"] e
    by simp_all
  have b: "\<not> b" using assms(1) e by simp
  show ?thesis
    using b assms(2-4) e d
      refreshable_onApiError_retry [OF assms(5-8),
        of "sa\<lparr>dispatched := dispatched sa @ [c], hooks := hooks sa @ [AuthStrategyHook]\<rparr>"]
    by (simp add: executeApiCall_def Let_def)
qed


lemma emit_limiter [simp]:
  "rateLimitWindowCounter (emit n t ps c s) = rateLimitWindowCounter s"
  "currentRateLimitWindowStart (emit n t ps c s) = currentRateLimitWindowStart s"
  "hooks (emit n t ps c s) = hooks s"
  by (simp_all add: emit_def)

lemma completeCall_with_response:
  assumes "response c = Some resp"
    and "\<forall>f. normalizationMapping (endpoint c) = Some (NormFun f) \<longrightarrow>
           (\<exists>d. f ps (data resp) = Inr d)"
  shows "\<exists>d cN s3. completeCall svc n ps c s =
           (Inr (Some (resp\<lparr>data := d\<rparr>)), ps,
            emit n AFTER ps cN (emit n SUCCESS ps cN s3)) \<and>
         dispatched s3 = dispatched s \<and> events s3 = events s \<and> refreshed s3 = refreshed s \<and>
         (normalizationMapping (endpoint c) = None \<longrightarrow> d = data resp) \<and>
         (\<forall>f. normalizationMapping (endpoint c) = Some (NormFun f) \<longrightarrow>
              f ps (data resp) = Inr d)"
proof (cases "normalizationMapping (endpoint c)")
  case None
  have "completeCall svc n ps c s =
          (Inr (Some (resp\<lparr>data := data resp\<rparr>)), ps, emit n AFTER ps c (emit n SUCCESS ps c s))"
    using None assms(1) by (simp add: completeCall_def normalizeResponse_def)
  then show ?thesis
    using None by (intro exI [of _ "data resp"] exI [of _ c] exI [of _ s]) simp
next
  case (Some m)
  show ?thesis
  proof (cases m)
    case (NormFun f)
    obtain d where d: "f ps (data resp) = Inr d"
      using assms(2) Some NormFun by blast
    have "completeCall svc n ps c s =
            (Inr (Some (resp\<lparr>data := d\<rparr>)), ps,
             emit n AFTER ps (c\<lparr>response := Some (resp\<lparr>data := d\<rparr>)\<rparr>)
               (emit n SUCCESS ps (c\<lparr>response := Some (resp\<lparr>data := d\<rparr>)\<rparr>) s))"
      using Some NormFun assms(1) d by (simp add: completeCall_def normalizeResponse_def)
    then show ?thesis
      using Some NormFun d
      by (intro exI [of _ d]
            exI [of _ "c\<lparr>response := Some (resp\<lparr>data := d\<rparr>)\<rparr>"]
            exI [of _ s]) simp
  next
    case (NormTable t)
    obtain obj s3 where nz: "normalizeWithObjectMapping svc t (data resp) s = (obj, s3)"
      by (cases "normalizeWithObjectMapping svc t (data resp) s")
    have tr: "dispatched s3 = dispatched s \<and> events s3 = events s \<and> refreshed s3 = refreshed s"
      using nz normalizeEntries_traces unfolding normalizeWithObjectMapping_def by blast
    have "completeCall svc n ps c s =
            (Inr (Some (resp\<lparr>data := Some (JObj obj)\<rparr>)), ps,
             emit n AFTER ps (c\<lparr>response := Some (resp\<lparr>data := Some (JObj obj)\<rparr>)\<rparr>)
               (emit n SUCCESS ps (c\<lparr>response := Some (resp\<lparr>data := Some (JObj obj)\<rparr>)\<rparr>) s3))"
      using Some NormTable assms(1) nz by (simp add: completeCall_def normalizeResponse_def)
    then show ?thesis
      using Some NormTable tr
      by (intro exI [of _ "Some (JObj obj)"]
            exI [of _ "c\<lparr>response := Some (resp\<lparr>data := Some (JObj obj)\<rparr>)\<rparr>"]
            exI [of _ s3]) simp
  qed
qed

text \<open>
  When the normalization function throws, the tail of \<^verbatim>\<open>call\<close> rejects with what it
  threw and emits nothing. Whatever the rule does, the tail hands the parameter object
  back as it got it, and every event it emits carries that object.
\<close>

lemma completeCall_normalization_error:
  assumes "response c = Some resp"
    and "normalizationMapping (endpoint c) = Some (NormFun f)"
    and "f ps (data resp) = Inl thrown"
  shows "completeCall svc n ps c s = (Inl (OtherError thrown), ps, s)"
  using assms by (simp add: completeCall_def normalizeResponse_def)

lemma completeCall_params:
  "fst (snd (completeCall svc n ps c s)) = ps"
  by (simp add: completeCall_def split: prod.splits sum.splits)

lemma completeCall_events:
  "\<exists>later. events (snd (snd (completeCall svc n ps c s))) = events s @ later \<and>
           (\<forall>ev \<in> set later. ev_params ev = ps)"
proof -
  obtain res s1 where nr: "normalizeResponse svc ps c s = (res, s1)"
    by (cases "normalizeResponse svc ps c s")
  have e1: "events s1 = events s"
    using normalizeResponse_traces [OF nr] by simp
  show ?thesis
  proof (cases res)
    case (Inl e)
    then have "events (snd (snd (completeCall svc n ps c s))) = events s @ []"
      using nr e1 by (simp add: completeCall_def)
    then show ?thesis by (intro exI [of _ "[]"]) simp
  next
    case (Inr cN)
    then have "events (snd (snd (completeCall svc n ps c s))) =
        events s @ [\<lparr>ev_endpoint = n, ev_type = SUCCESS, ev_params = ps, ev_apiCall = cN\<rparr>,
                    \<lparr>ev_endpoint = n, ev_type = AFTER, ev_params = ps, ev_apiCall = cN\<rparr>]"
      using nr e1 by (simp add: completeCall_def)
    then show ?thesis
      by (intro exI [of _ "[\<lparr>ev_endpoint = n, ev_type = SUCCESS, ev_params = ps, ev_apiCall = cN\<rparr>,
                    \<lparr>ev_endpoint = n, ev_type = AFTER, ev_params = ps, ev_apiCall = cN\<rparr>]"]) simp
  qed
qed

text \<open>
  A call whose first attempt is answered by an error the strategy takes for an expired
  token and whose retry attempt is answered by a response ends in the tail of \<^verbatim>\<open>call\<close>
  with the rebuilt call and that response.
\<close>

lemma call_refresh_retry:
  assumes ep: "map_of (endpoints svc) n = Some ep"
    and strat: "buildAuthStrategy svc ep = Inr (RefreshableBearerTokenAuthStrategy h r)"
    and built: "buildApiCall svc ep (Some p) (RefreshableBearerTokenAuthStrategy h r) ovr = Inr c"
    and valid: "validateApiCall c = Inr ()"
    and live: "\<not> dryRun svc"
    and adm1: "\<not> fst (enforceGlobalRateLimit svc (clock svc (ticks s)) c s)"
    and fail1: "transport svc (length (dispatched s)) c = Inl err"
    and api: "isApiError svc err"
    and expired: "isAccessTokenExpiredError r c err"
    and build: "buildRefreshAccessTokenPayload r = Some build"
    and refresh: "refreshAccessToken r (p\<lparr>p_payload := build p\<rparr>) = Inr tok"
    and rebuilt: "buildApiCall svc ep
           (Some (p\<lparr>p_auth := Some (obj_set ''accessToken'' (accessToken tok)
                                  (case p_auth p of None \<Rightarrow> [] | Some a \<Rightarrow> a))\<rparr>))
           (RefreshableBearerTokenAuthStrategy h r) None = Inr c'"
    and adm2: "\<not> fst (enforceGlobalRateLimit svc (clock svc (Suc (ticks s))) c'
                 (snd (enforceGlobalRateLimit svc (clock svc (ticks s)) c s)))"
    and ok2: "transport svc (Suc (length (dispatched s))) c' = Inr resp"
  shows "\<exists>s2. call svc n (Some p) ovr s =
             completeCall svc n (Some (p\<lparr>p_payload := build p\<rparr>)) (c'\<lparr>response := Some resp\<rparr>) s2 \<and>
           dispatched s2 = dispatched s @ [c, c'] \<and>
           refreshed s2 = refreshed s @ [p\<lparr>p_payload := build p\<rparr>] \<and>
           events s2 = events s @
             [\<lparr>ev_endpoint = n, ev_type = BEFORE, ev_params = Some p, ev_apiCall = c\<rparr>]"
proof -
  let ?strat = "RefreshableBearerTokenAuthStrategy h r"
  let ?s0 = "emit n BEFORE (Some p) c s"
  let ?p1 = "p\<lparr>p_payload := build p\<rparr>"
  let ?E1 = "enforceGlobalRateLimit svc (clock svc (ticks ?s0)) c (?s0\<lparr>ticks := Suc (ticks ?s0)\<rparr>)"
  have epc: "endpoint c = ep"
    using buildApiCall_fields [OF built] by simp
  have a1: "\<not> fst ?E1"
    using adm1 enforce_cong(1) [of "?s0\<lparr>ticks := Suc (ticks ?s0)\<rparr>" s svc "clock svc (ticks s)" c c]
    by simp
  obtain c1 where first:
    "executeApiCall svc (Some p) c (Some ?strat) ?s0 =
       (Some (RetryAPICall c'), c1, Some ?p1,
        (snd ?E1)\<lparr>dispatched := dispatched ?s0 @ [c], hooks := hooks ?s0 @ [AuthStrategyHook],
                  refreshed := refreshed ?s0 @ [?p1]\<rparr>)"
    using executeApiCall_refresh [OF a1 live _ api expired build refresh,
        where c' = c' and h = h] fail1 rebuilt epc
    by simp
  let ?s1 = "(snd ?E1)\<lparr>dispatched := dispatched ?s0 @ [c], hooks := hooks ?s0 @ [AuthStrategyHook],
                  refreshed := refreshed ?s0 @ [?p1]\<rparr>"
  let ?E2 = "enforceGlobalRateLimit svc (clock svc (ticks ?s1)) c' (?s1\<lparr>ticks := Suc (ticks ?s1)\<rparr>)"
  have t1: "ticks ?s1 = Suc (ticks s)"
    by simp
  have lim: "rateLimitWindowCounter (?s1\<lparr>ticks := Suc (ticks ?s1)\<rparr>) =
               rateLimitWindowCounter (snd (enforceGlobalRateLimit svc (clock svc (ticks s)) c s))"
            "currentRateLimitWindowStart (?s1\<lparr>ticks := Suc (ticks ?s1)\<rparr>) =
               currentRateLimitWindowStart (snd (enforceGlobalRateLimit svc (clock svc (ticks s)) c s))"
    using enforce_cong(2,3) [of "?s0\<lparr>ticks := Suc (ticks ?s0)\<rparr>" s svc "clock svc (ticks s)" c c]
    by simp_all
  have a2: "\<not> fst ?E2"
    using adm2 enforce_cong(1) [OF lim, of svc "clock svc (Suc (ticks s))" c' c']
    unfolding t1 by simp
  have tr2: "transport svc (length (dispatched ?s1)) c' = Inr resp"
    using ok2 by simp
  have second:
    "executeApiCall svc (Some ?p1) c' (Some ?strat) ?s1 =
       (None, c'\<lparr>response := Some resp\<rparr>, Some ?p1,
        (snd ?E2)\<lparr>dispatched := dispatched ?s1 @ [c']\<rparr>)"
    by (rule executeApiCall_success [OF a2 live tr2])
  let ?s2 = "(snd ?E2)\<lparr>dispatched := dispatched ?s1 @ [c']\<rparr>"
  have "call svc n (Some p) ovr s = tryCall svc n (Some p) c ?strat ?s0"
    by (rule call_constructed [OF ep strat built valid])
  also have "\<dots> = completeCall svc n (Some ?p1) (c'\<lparr>response := Some resp\<rparr>) ?s2"
    by (simp only: tryCall_def first second prod.case option.case error.case)
  finally have "call svc n (Some p) ovr s =
      completeCall svc n (Some ?p1) (c'\<lparr>response := Some resp\<rparr>) ?s2" .
  moreover have "dispatched ?s2 = dispatched s @ [c, c']"
    by simp
  moreover have "refreshed ?s2 = refreshed s @ [?p1]"
    by simp
  moreover have "events ?s2 = events s @
      [\<lparr>ev_endpoint = n, ev_type = BEFORE, ev_params = Some p, ev_apiCall = c\<rparr>]"
    by simp
  ultimately show ?thesis by blast
qed



lemmas normalizing_defs = normalizingEndpoint_def normalizingCall_def normalizingService_def
  rawResponse_def expiredThen_def



text \<open>
  The parameter object and the events of such a call: the caller is left with the
  overwritten object and every event behind \<^verbatim>\<open>before\<close> carries it, whatever the
  normalization rule does; when the rule does not throw, the events are \<^verbatim>\<open>before\<close>,
  \<^verbatim>\<open>success\<close>, \<^verbatim>\<open>after\<close>.
\<close>

lemma call_refresh_retry_events:
  assumes ep: "map_of (endpoints svc) n = Some ep"
    and strat: "buildAuthStrategy svc ep = Inr (RefreshableBearerTokenAuthStrategy h r)"
    and built: "buildApiCall svc ep (Some p) (RefreshableBearerTokenAuthStrategy h r) ovr = Inr c"
    and valid: "validateApiCall c = Inr ()"
    and live: "\<not> dryRun svc"
    and adm1: "\<not> fst (enforceGlobalRateLimit svc (clock svc (ticks s)) c s)"
    and fail1: "transport svc (length (dispatched s)) c = Inl err"
    and api: "isApiError svc err"
    and expired: "isAccessTokenExpiredError r c err"
    and build: "buildRefreshAccessTokenPayload r = Some build"
    and refresh: "refreshAccessToken r (p\<lparr>p_payload := build p\<rparr>) = Inr tok"
    and rebuilt: "buildApiCall svc ep
           (Some (p\<lparr>p_auth := Some (obj_set ''accessToken'' (accessToken tok)
                                  (case p_auth p of None \<Rightarrow> [] | Some a \<Rightarrow> a))\<rparr>))
           (RefreshableBearerTokenAuthStrategy h r) None = Inr c'"
    and adm2: "\<not> fst (enforceGlobalRateLimit svc (clock svc (Suc (ticks s))) c'
                 (snd (enforceGlobalRateLimit svc (clock svc (ticks s)) c s)))"
    and ok2: "transport svc (Suc (length (dispatched s))) c' = Inr resp"
  shows "fst (snd (call svc n (Some p) ovr s)) = Some (p\<lparr>p_payload := build p\<rparr>)
       \<and> (\<exists>later. events (snd (snd (call svc n (Some p) ovr s))) =
              events s @
                \<lparr>ev_endpoint = n, ev_type = BEFORE, ev_params = Some p, ev_apiCall = c\<rparr> # later \<and>
              (\<forall>ev \<in> set later. ev_params ev = Some (p\<lparr>p_payload := build p\<rparr>)))
       \<and> ((\<forall>f. normalizationMapping ep = Some (NormFun f) \<longrightarrow>
              (\<exists>d. f (Some (p\<lparr>p_payload := build p\<rparr>)) (data resp) = Inr d)) \<longrightarrow>
           map ev_type (events (snd (snd (call svc n (Some p) ovr s)))) =
             map ev_type (events s) @ [BEFORE, SUCCESS, AFTER] \<and>
           map ev_params (events (snd (snd (call svc n (Some p) ovr s)))) =
             map ev_params (events s) @
               [Some p, Some (p\<lparr>p_payload := build p\<rparr>), Some (p\<lparr>p_payload := build p\<rparr>)])"
proof -
  let ?p1 = "p\<lparr>p_payload := build p\<rparr>"
  let ?cr = "c'\<lparr>response := Some resp\<rparr>"
  let ?before = "\<lparr>ev_endpoint = n, ev_type = BEFORE, ev_params = Some p, ev_apiCall = c\<rparr>"
  obtain s2 where
    c: "call svc n (Some p) ovr s = completeCall svc n (Some ?p1) ?cr s2"
    and e2: "events s2 = events s @ [?before]"
    using call_refresh_retry [OF assms] by blast
  have epc: "endpoint c' = ep"
    using rebuilt_call_fields(3) [OF rebuilt] .
  have params: "fst (snd (call svc n (Some p) ovr s)) = Some ?p1"
    by (simp add: c completeCall_params)
  obtain later where
    l: "events (snd (snd (completeCall svc n (Some ?p1) ?cr s2))) = events s2 @ later"
    and lp: "\<forall>ev \<in> set later. ev_params ev = Some ?p1"
    using completeCall_events [of svc n "Some ?p1" ?cr s2] by blast
  have "events (snd (snd (call svc n (Some p) ovr s))) = events s @ ?before # later"
    by (simp add: c l e2)
  then have every: "\<exists>later. events (snd (snd (call svc n (Some p) ovr s))) =
      events s @ ?before # later \<and> (\<forall>ev \<in> set later. ev_params ev = Some ?p1)"
    using lp by blast
  have exact: "map ev_type (events (snd (snd (call svc n (Some p) ovr s)))) =
        map ev_type (events s) @ [BEFORE, SUCCESS, AFTER] \<and>
      map ev_params (events (snd (snd (call svc n (Some p) ovr s)))) =
        map ev_params (events s) @ [Some p, Some ?p1, Some ?p1]"
    if ok: "\<forall>f. normalizationMapping ep = Some (NormFun f) \<longrightarrow>
              (\<exists>d. f (Some ?p1) (data resp) = Inr d)"
  proof -
    have r: "response ?cr = Some resp" by simp
    have okc: "\<forall>f. normalizationMapping (endpoint ?cr) = Some (NormFun f) \<longrightarrow>
        (\<exists>d. f (Some ?p1) (data resp) = Inr d)"
      using ok epc by simp
    obtain d cN s3 where
      cc: "completeCall svc n (Some ?p1) ?cr s2 =
             (Inr (Some (resp\<lparr>data := d\<rparr>)), Some ?p1,
              emit n AFTER (Some ?p1) cN (emit n SUCCESS (Some ?p1) cN s3))"
      and e3: "events s3 = events s2"
      using completeCall_with_response [where c = ?cr and resp = resp and ps = "Some ?p1"
          and svc = svc and n = n and s = s2, OF r okc] by auto
    show ?thesis
      by (simp add: c cc e3 e2)
  qed
  show ?thesis
    using params every exact by blast
qed

text \<open>
  Claim C10. When \<^verbatim>\<open>RefreshableBearerTokenAuthStrategy.onApiError\<close> takes the refresh
  branch (the error is classified as an expired token and
  \<^verbatim>\<open>buildRefreshAccessTokenPayload\<close> is provided), the caller's parameter object comes
  back with its payload overwritten by the refresh payload, whether the refresh then
  succeeds or not; when the refresh and the rebuild succeed, the rebuilt call the retry
  signal carries has the original payload; and in a call whose retry is then answered by
  a response the caller is left with the overwritten object, and every event emitted
  behind \<^verbatim>\<open>before\<close> carries it, while the \<^verbatim>\<open>before\<close> event, emitted earlier, carried the
  original payload. Those later events are \<^verbatim>\<open>success\<close> and \<^verbatim>\<open>after\<close> unless the
  endpoint's normalization function throws, in which case there is none.
\<close>

theorem refresh_overwrites_caller_payload:
  "(isAccessTokenExpiredError r c err \<and> buildRefreshAccessTokenPayload r = Some build \<longrightarrow>
      fst (snd (snd (strategy_onApiError svc (RefreshableBearerTokenAuthStrategy h r)
                       (Some p) c err s'))) = Some (p\<lparr>p_payload := build p\<rparr>))
   \<and> (isAccessTokenExpiredError r c err \<and> buildRefreshAccessTokenPayload r = Some build \<and>
      refreshAccessToken r (p\<lparr>p_payload := build p\<rparr>) = Inr tok \<and>
      buildApiCall svc (endpoint c)
        (Some (p\<lparr>p_auth := Some (obj_set ''accessToken'' (accessToken tok)
                               (case p_auth p of None \<Rightarrow> [] | Some a \<Rightarrow> a))\<rparr>))
        (RefreshableBearerTokenAuthStrategy h r) None = Inr c' \<longrightarrow>
      fst (strategy_onApiError svc (RefreshableBearerTokenAuthStrategy h r)
             (Some p) c err s') = Inl (RetryAPICall c') \<and>
      payload (request c') = p_payload p)
   \<and> (map_of (endpoints svc) n = Some ep \<and>
      buildAuthStrategy svc ep = Inr (RefreshableBearerTokenAuthStrategy h r) \<and>
      buildApiCall svc ep (Some p) (RefreshableBearerTokenAuthStrategy h r) ovr = Inr c \<and>
      validateApiCall c = Inr () \<and>
      \<not> dryRun svc \<and>
      \<not> fst (enforceGlobalRateLimit svc (clock svc (ticks s)) c s) \<and>
      transport svc (length (dispatched s)) c = Inl err \<and>
      isApiError svc err \<and>
      isAccessTokenExpiredError r c err \<and>
      buildRefreshAccessTokenPayload r = Some build \<and>
      refreshAccessToken r (p\<lparr>p_payload := build p\<rparr>) = Inr tok \<and>
      buildApiCall svc ep
        (Some (p\<lparr>p_auth := Some (obj_set ''accessToken'' (accessToken tok)
                               (case p_auth p of None \<Rightarrow> [] | Some a \<Rightarrow> a))\<rparr>))
        (RefreshableBearerTokenAuthStrategy h r) None = Inr c' \<and>
      \<not> fst (enforceGlobalRateLimit svc (clock svc (Suc (ticks s))) c'
              (snd (enforceGlobalRateLimit svc (clock svc (ticks s)) c s))) \<and>
      transport svc (Suc (length (dispatched s))) c' = Inr resp \<longrightarrow>
      fst (snd (call svc n (Some p) ovr s)) = Some (p\<lparr>p_payload := build p\<rparr>)
      \<and> (\<exists>later. events (snd (snd (call svc n (Some p) ovr s))) =
             events s @
               \<lparr>ev_endpoint = n, ev_type = BEFORE, ev_params = Some p, ev_apiCall = c\<rparr> # later \<and>
             (\<forall>ev \<in> set later. ev_params ev = Some (p\<lparr>p_payload := build p\<rparr>)))
      \<and> ((\<forall>f. normalizationMapping ep = Some (NormFun f) \<longrightarrow>
             (\<exists>d. f (Some (p\<lparr>p_payload := build p\<rparr>)) (data resp) = Inr d)) \<longrightarrow>
          map ev_type (events (snd (snd (call svc n (Some p) ovr s)))) =
            map ev_type (events s) @ [BEFORE, SUCCESS, AFTER] \<and>
          map ev_params (events (snd (snd (call svc n (Some p) ovr s)))) =
            map ev_params (events s) @
              [Some p, Some (p\<lparr>p_payload := build p\<rparr>), Some (p\<lparr>p_payload := build p\<rparr>)]))"
proof (intro conjI impI)
  assume "isAccessTokenExpiredError r c err \<and> buildRefreshAccessTokenPayload r = Some build"
  then show "fst (snd (snd (strategy_onApiError svc (RefreshableBearerTokenAuthStrategy h r)
                       (Some p) c err s'))) = Some (p\<lparr>p_payload := build p\<rparr>)"
    using refreshable_onApiError_params(1) [where r = r and c = c and err = err
        and build = build and svc = svc and h = h and p = p and s = s'] by simp
next
  assume a: "isAccessTokenExpiredError r c err \<and> buildRefreshAccessTokenPayload r = Some build \<and>
      refreshAccessToken r (p\<lparr>p_payload := build p\<rparr>) = Inr tok \<and>
      buildApiCall svc (endpoint c)
        (Some (p\<lparr>p_auth := Some (obj_set ''accessToken'' (accessToken tok)
                               (case p_auth p of None \<Rightarrow> [] | Some a \<Rightarrow> a))\<rparr>))
        (RefreshableBearerTokenAuthStrategy h r) None = Inr c'"
  then show "fst (strategy_onApiError svc (RefreshableBearerTokenAuthStrategy h r)
             (Some p) c err s') = Inl (RetryAPICall c')"
    using refreshable_onApiError_retry [where r = r and c = c and err = err
        and build = build and p = p and tok = tok and svc = svc and h = h and c' = c'
        and s = s'] by simp
  from a show "payload (request c') = p_payload p"
    using rebuilt_call_fields(1) [where svc = svc and ep = "endpoint c" and p = p
        and t = "accessToken tok" and strategy = "RefreshableBearerTokenAuthStrategy h r"
        and c' = c'] by simp
next
  assume a: "map_of (endpoints svc) n = Some ep \<and>
      buildAuthStrategy svc ep = Inr (RefreshableBearerTokenAuthStrategy h r) \<and>
      buildApiCall svc ep (Some p) (RefreshableBearerTokenAuthStrategy h r) ovr = Inr c \<and>
      validateApiCall c = Inr () \<and>
      \<not> dryRun svc \<and>
      \<not> fst (enforceGlobalRateLimit svc (clock svc (ticks s)) c s) \<and>
      transport svc (length (dispatched s)) c = Inl err \<and>
      isApiError svc err \<and>
      isAccessTokenExpiredError r c err \<and>
      buildRefreshAccessTokenPayload r = Some build \<and>
      refreshAccessToken r (p\<lparr>p_payload := build p\<rparr>) = Inr tok \<and>
      buildApiCall svc ep
        (Some (p\<lparr>p_auth := Some (obj_set ''accessToken'' (accessToken tok)
                               (case p_auth p of None \<Rightarrow> [] | Some a \<Rightarrow> a))\<rparr>))
        (RefreshableBearerTokenAuthStrategy h r) None = Inr c' \<and>
      \<not> fst (enforceGlobalRateLimit svc (clock svc (Suc (ticks s))) c'
              (snd (enforceGlobalRateLimit svc (clock svc (ticks s)) c s))) \<and>
      transport svc (Suc (length (dispatched s))) c' = Inr resp"
  have ev: "fst (snd (call svc n (Some p) ovr s)) = Some (p\<lparr>p_payload := build p\<rparr>)
       \<and> (\<exists>later. events (snd (snd (call svc n (Some p) ovr s))) =
              events s @
                \<lparr>ev_endpoint = n, ev_type = BEFORE, ev_params = Some p, ev_apiCall = c\<rparr> # later \<and>
              (\<forall>ev \<in> set later. ev_params ev = Some (p\<lparr>p_payload := build p\<rparr>)))
       \<and> ((\<forall>f. normalizationMapping ep = Some (NormFun f) \<longrightarrow>
              (\<exists>d. f (Some (p\<lparr>p_payload := build p\<rparr>)) (data resp) = Inr d)) \<longrightarrow>
           map ev_type (events (snd (snd (call svc n (Some p) ovr s)))) =
             map ev_type (events s) @ [BEFORE, SUCCESS, AFTER] \<and>
           map ev_params (events (snd (snd (call svc n (Some p) ovr s)))) =
             map ev_params (events s) @
               [Some p, Some (p\<lparr>p_payload := build p\<rparr>), Some (p\<lparr>p_payload := build p\<rparr>)])"
    using a
    apply -
    apply (elim conjE)
    apply (rule call_refresh_retry_events [where svc = svc and n = n and ep = ep and h = h
          and r = r and p = p and ovr = ovr and c = c and s = s and err = err
          and build = build and tok = tok and c' = c' and resp = resp]; assumption)
    done
  from ev show "fst (snd (call svc n (Some p) ovr s)) = Some (p\<lparr>p_payload := build p\<rparr>)"
    by blast
  from ev show "\<exists>later. events (snd (snd (call svc n (Some p) ovr s))) =
              events s @
                \<lparr>ev_endpoint = n, ev_type = BEFORE, ev_params = Some p, ev_apiCall = c\<rparr> # later \<and>
              (\<forall>ev \<in> set later. ev_params ev = Some (p\<lparr>p_payload := build p\<rparr>))"
    by blast
  assume ok: "\<forall>f. normalizationMapping ep = Some (NormFun f) \<longrightarrow>
              (\<exists>d. f (Some (p\<lparr>p_payload := build p\<rparr>)) (data resp) = Inr d)"
  from ev ok show "map ev_type (events (snd (snd (call svc n (Some p) ovr s)))) =
             map ev_type (events s) @ [BEFORE, SUCCESS, AFTER]"
    by blast
  from ev ok show "map ev_params (events (snd (snd (call svc n (Some p) ovr s)))) =
             map ev_params (events s) @
               [Some p, Some (p\<lparr>p_payload := build p\<rparr>), Some (p\<lparr>p_payload := build p\<rparr>)]"
    by blast
qed

theorem refresh_overwrites_caller_payload_witness:
  "fst (snd (call (normalizingService (expiredThen rawResponse)) ''normalizedEndpoint''
      (Some mockParams) None (initialState 0))) =
     Some (mockParams\<lparr>p_payload := Some (JObj [(''refreshToken'', JStr ''r1'')])\<rparr>)
   \<and> map ev_type (events (snd (snd (call (normalizingService (expiredThen rawResponse))
      ''normalizedEndpoint'' (Some mockParams) None (initialState 0))))) =
     [BEFORE, SUCCESS, AFTER]
   \<and> map ev_params (events (snd (snd (call (normalizingService (expiredThen rawResponse))
      ''normalizedEndpoint'' (Some mockParams) None (initialState 0))))) =
     [Some mockParams,
      Some (mockParams\<lparr>p_payload := Some (JObj [(''refreshToken'', JStr ''r1'')])\<rparr>),
      Some (mockParams\<lparr>p_payload := Some (JObj [(''refreshToken'', JStr ''r1'')])\<rparr>)]
   \<and> payload (request (normalizingCall ''123'' (Some (JStr ''hello'')))) = p_payload mockParams"
proof -
  let ?svc = "normalizingService (expiredThen rawResponse)"
  let ?n = "''normalizedEndpoint''"
  let ?h = "\<lparr>isAuthError_param = None, onAuthError_param = None\<rparr>"
  let ?c = "normalizingCall ''mock_token'' (Some (JStr ''hello''))"
  let ?c' = "normalizingCall ''123'' (Some (JStr ''hello''))"
  let ?build = "\<lambda>p::call_params. Some (JObj [(''refreshToken'', JStr ''r1'')])"
  let ?tok = "\<lparr>accessToken = ''123'', refreshToken = None, expiresIn = 3600\<rparr>"
  have h1: "map_of (endpoints ?svc) ?n = Some normalizingEndpoint"
    by (simp add: normalizingService_def refreshableService_def)
  have h2: "buildAuthStrategy ?svc normalizingEndpoint =
      Inr (RefreshableBearerTokenAuthStrategy ?h refreshHooks)"
    by (simp add: buildAuthStrategy_def normalizingService_def refreshableService_def
        normalizingEndpoint_def keyByType_def refreshableStrategy_def)
  have h3: "buildApiCall ?svc normalizingEndpoint (Some mockParams)
      (RefreshableBearerTokenAuthStrategy ?h refreshHooks) None = Inr ?c"
    by (simp add: pipeline_defs fixture_defs normalizing_defs)
  have h4: "validateApiCall ?c = Inr ()"
    by (simp add: validateApiCall_def lower_char_def mockCall_def normalizingCall_def)
  have h5: "\<not> dryRun ?svc"
    by (simp add: normalizingService_def refreshableService_def testService_def)
  have h6: "\<not> fst (enforceGlobalRateLimit ?svc (clock ?svc (ticks (initialState 0))) ?c
      (initialState 0))"
    by (simp add: pipeline_defs fixture_defs normalizing_defs)
  have h7: "transport ?svc (length (dispatched (initialState 0))) ?c = Inl (TransportError 401 None)"
    by (simp add: normalizingService_def refreshableService_def expiredThen_def initialState_def)
  have h8: "isApiError ?svc (TransportError 401 None)"
    by (simp add: normalizingService_def refreshableService_def testService_def)
  have h9: "isAccessTokenExpiredError refreshHooks ?c (TransportError 401 None)"
    by (simp add: refreshHooks_def)
  have h10: "buildRefreshAccessTokenPayload refreshHooks = Some ?build"
    by (simp add: refreshHooks_def)
  have h11: "refreshAccessToken refreshHooks (mockParams\<lparr>p_payload := ?build mockParams\<rparr>) = Inr ?tok"
    by (simp add: refreshHooks_def)
  have h12: "buildApiCall ?svc normalizingEndpoint
      (Some (mockParams\<lparr>p_auth := Some (obj_set ''accessToken'' (accessToken ?tok)
          (case p_auth mockParams of None \<Rightarrow> [] | Some a \<Rightarrow> a))\<rparr>))
      (RefreshableBearerTokenAuthStrategy ?h refreshHooks) None = Inr ?c'"
    by (simp add: pipeline_defs fixture_defs normalizing_defs)
  have h13: "\<not> fst (enforceGlobalRateLimit ?svc (clock ?svc (Suc (ticks (initialState 0)))) ?c'
      (snd (enforceGlobalRateLimit ?svc (clock ?svc (ticks (initialState 0))) ?c (initialState 0))))"
    by (simp add: pipeline_defs fixture_defs normalizing_defs)
  have h14: "transport ?svc (Suc (length (dispatched (initialState 0)))) ?c' = Inr rawResponse"
    by (simp add: normalizingService_def refreshableService_def expiredThen_def initialState_def)
  have h12': "buildApiCall ?svc (endpoint ?c)
      (Some (mockParams\<lparr>p_auth := Some (obj_set ''accessToken'' (accessToken ?tok)
          (case p_auth mockParams of None \<Rightarrow> [] | Some a \<Rightarrow> a))\<rparr>))
      (RefreshableBearerTokenAuthStrategy ?h refreshHooks) None = Inr ?c'"
    using h12 by (simp add: mockCall_def normalizingCall_def)
  have ok: "\<forall>f. normalizationMapping normalizingEndpoint = Some (NormFun f) \<longrightarrow>
      (\<exists>d. f (Some (mockParams\<lparr>p_payload := ?build mockParams\<rparr>)) (data rawResponse) = Inr d)"
    by (auto simp: normalizingEndpoint_def normalizeRaw_def rawResponse_def)
  have i: "events (initialState 0) = []"
    by (simp add: initialState_def)
  have all: "fst (snd (call ?svc ?n (Some mockParams) None (initialState 0))) =
        Some (mockParams\<lparr>p_payload := ?build mockParams\<rparr>)"
      "map ev_type (events (snd (snd (call ?svc ?n (Some mockParams) None (initialState 0))))) =
        map ev_type (events (initialState 0)) @ [BEFORE, SUCCESS, AFTER]"
      "map ev_params (events (snd (snd (call ?svc ?n (Some mockParams) None (initialState 0))))) =
        map ev_params (events (initialState 0)) @
          [Some mockParams, Some (mockParams\<lparr>p_payload := ?build mockParams\<rparr>),
           Some (mockParams\<lparr>p_payload := ?build mockParams\<rparr>)]"
    and pl: "payload (request ?c') = p_payload mockParams"
    using refresh_overwrites_caller_payload [where svc = ?svc and n = ?n
        and ep = normalizingEndpoint and h = ?h and r = refreshHooks and p = mockParams
        and ovr = None and c = ?c and s = "initialState 0" and err = "TransportError 401 None"
        and build = ?build and tok = ?tok and c' = ?c' and resp = rawResponse]
      h1 h2 h3 h4 h5 h6 h7 h8 h9 h10 h11 h12 h12' h13 h14 ok
    by blast+
  show ?thesis
    using all pl by (simp add: i)
qed

text \<open>
  The same call with a response without data, on which the normalization function
  throws: the two dispatches and the refresh happen, \<^verbatim>\<open>call\<close> rejects with what the
  function threw, and \<^verbatim>\<open>before\<close> is the only event.
\<close>

lemma normalization_error_propagates:
  "fst (call (normalizingService (expiredThen okResponse)) ''normalizedEndpoint''
      (Some mockParams) None (initialState 0)) = Inl (OtherError ''TypeError'')
   \<and> map ev_type (events (snd (snd (call (normalizingService (expiredThen okResponse))
      ''normalizedEndpoint'' (Some mockParams) None (initialState 0))))) = [BEFORE]
   \<and> length (dispatched (snd (snd (call (normalizingService (expiredThen okResponse))
      ''normalizedEndpoint'' (Some mockParams) None (initialState 0))))) = 2
   \<and> fst (snd (call (normalizingService (expiredThen okResponse)) ''normalizedEndpoint''
      (Some mockParams) None (initialState 0))) =
     Some (mockParams\<lparr>p_payload := Some (JObj [(''refreshToken'', JStr ''r1'')])\<rparr>)"
  by (simp add: pipeline_defs fixture_defs normalizing_defs normalizeRaw_def)

section \<open>Construction failures: properties\<close>

lemma buildAuthStrategy_error:
  "buildAuthStrategy svc ep = Inl e \<Longrightarrow> \<exists>t. e = AuthStrategyNotConfigured t (name ep)"
  by (auto simp: buildAuthStrategy_def Let_def split: option.splits)

lemma validateApiCall_error:
  "validateApiCall c = Inl e \<Longrightarrow> \<exists>m. e = InvalidMethod m"
  by (auto simp: validateApiCall_def Let_def split: if_splits)

text \<open>
  Claim C9. A call that fails while it is constructed or validated (the endpoint is not
  registered, no strategy is configured for its authentication type, \<^verbatim>\<open>buildApiCall\<close>
  fails, which it does only for a missing path parameter or for \<^verbatim>\<open>InvalidAuthParams\<close>
  thrown by the strategy's \<^verbatim>\<open>execute\<close>, or the method is not a supported verb) rejects
  with that error and leaves the service state and the parameter object as they were:
  the trace of events is unchanged, so neither \<^verbatim>\<open>before\<close> nor \<^verbatim>\<open>error\<close> nor \<^verbatim>\<open>after\<close> is
  emitted.
\<close>

theorem failed_construction_emits_nothing:
  "(map_of (endpoints svc) n = None \<longrightarrow>
      call svc n ps ovr s = (Inl (EndpointNotFound n), ps, s))
   \<and> (map_of (endpoints svc) n = Some ep \<and> buildAuthStrategy svc ep = Inl e \<longrightarrow>
      call svc n ps ovr s = (Inl e, ps, s) \<and>
      (\<exists>t. e = AuthStrategyNotConfigured t (name ep)))
   \<and> (map_of (endpoints svc) n = Some ep \<and> buildAuthStrategy svc ep = Inr strat \<and>
      buildApiCall svc ep ps strat ovr = Inl e \<longrightarrow>
      call svc n ps ovr s = (Inl e, ps, s) \<and>
      ((\<exists>m. e = MissingPathParameter (e_url ep) m) \<or> (\<exists>c. e = InvalidAuthParams c)))
   \<and> (map_of (endpoints svc) n = Some ep \<and> buildAuthStrategy svc ep = Inr strat \<and>
      buildApiCall svc ep ps strat ovr = Inr c \<and> validateApiCall c = Inl e \<longrightarrow>
      call svc n ps ovr s = (Inl e, ps, s) \<and> (\<exists>m. e = InvalidMethod m))"
  using buildAuthStrategy_error [of svc ep e] buildApiCall_error [of svc ep ps strat ovr e]
    validateApiCall_error [of c e]
  by (simp add: call_def)

theorem failed_construction_emits_nothing_witness:
  "call faultyService ''nope'' None None (initialState 0) =
     (Inl (EndpointNotFound ''nope''), None, initialState 0)
   \<and> call faultyService ''bearerAuthEndpoint'' (Some mockParams) None (initialState 0) =
     (Inl (AuthStrategyNotConfigured BEARER_TOKEN ''bearerAuthEndpoint''), Some mockParams,
      initialState 0)
   \<and> call faultyService ''getUserDetails'' (Some noParams) None (initialState 0) =
     (Inl (MissingPathParameter ''/users/:userId/details'' [''userId'']), Some noParams,
      initialState 0)
   \<and> fst (snd (call faultyService ''refreshableBearerAuthEndpoint'' (Some noParams) None
        (initialState 0))) = Some noParams
   \<and> snd (snd (call faultyService ''refreshableBearerAuthEndpoint'' (Some noParams) None
        (initialState 0))) = initialState 0
   \<and> call faultyService ''putEndpoint'' None None (initialState 0) =
     (Inl (InvalidMethod ''put''), None, initialState 0)"
proof -
  have e0: "map_of (endpoints faultyService) ''nope'' = None"
    by (simp add: faultyService_def)
  have e1: "map_of (endpoints faultyService) ''bearerAuthEndpoint'' = Some bearerAuthEndpoint"
    and e2: "map_of (endpoints faultyService) ''getUserDetails'' = Some getUserDetails"
    and e3: "map_of (endpoints faultyService) ''refreshableBearerAuthEndpoint'' = Some refreshableEndpoint"
    and e4: "map_of (endpoints faultyService) ''putEndpoint'' = Some putEndpoint"
    by (simp_all add: faultyService_def)
  have a1: "buildAuthStrategy faultyService bearerAuthEndpoint =
      Inl (AuthStrategyNotConfigured BEARER_TOKEN ''bearerAuthEndpoint'')"
    by (simp add: buildAuthStrategy_def faultyService_def bearerAuthEndpoint_def
        keyByType_def refreshableStrategy_def)
  have a2: "buildAuthStrategy faultyService getUserDetails = Inr NoneAuthStrategy"
    by (simp add: buildAuthStrategy_def faultyService_def getUserDetails_def testService_def)
  have a3: "buildAuthStrategy faultyService refreshableEndpoint = Inr refreshableStrategy"
    by (simp add: buildAuthStrategy_def faultyService_def refreshableEndpoint_def
        keyByType_def refreshableStrategy_def)
  have a4: "buildAuthStrategy faultyService putEndpoint = Inr NoneAuthStrategy"
    by (simp add: buildAuthStrategy_def faultyService_def putEndpoint_def testService_def)
  have b2: "buildApiCall faultyService getUserDetails (Some noParams) NoneAuthStrategy None =
      Inl (MissingPathParameter ''/users/:userId/details'' [''userId''])"
    by (simp add: pipeline_defs faultyService_def getUserDetails_def testService_def noParams_def)
  obtain e where b3: "buildApiCall faultyService refreshableEndpoint (Some noParams)
      refreshableStrategy None = Inl e"
    by (simp add: pipeline_defs faultyService_def refreshableEndpoint_def testService_def
        noParams_def refreshableStrategy_def)
  obtain c where b4: "buildApiCall faultyService putEndpoint None NoneAuthStrategy None = Inr c"
    and m4: "r_method (request c) = ''PUT''"
    by (simp add: pipeline_defs faultyService_def putEndpoint_def testService_def)
  have v4: "validateApiCall c = Inl (InvalidMethod ''put'')"
    by (simp add: validateApiCall_def lower_char_def m4)
  note t = failed_construction_emits_nothing
  show ?thesis
    using t [of faultyService "''nope''" None None "initialState 0"] e0
      t [of faultyService "''bearerAuthEndpoint''" "Some mockParams" None "initialState 0"
          bearerAuthEndpoint] e1 a1
      t [of faultyService "''getUserDetails''" "Some noParams" None "initialState 0"
          getUserDetails _ NoneAuthStrategy] e2 a2 b2
      t [of faultyService "''refreshableBearerAuthEndpoint''" "Some noParams" None "initialState 0"
          refreshableEndpoint e refreshableStrategy] e3 a3 b3
      t [of faultyService "''putEndpoint''" None None "initialState 0"
          putEndpoint "InvalidMethod ''put''" NoneAuthStrategy c] e4 a4 b4 v4
    by simp
qed

section \<open>Response normalizer: properties\<close>

lemma obj_set_fresh:
  "k \<notin> fst ` set kvs \<Longrightarrow> obj_set k v kvs = kvs @ [(k, v)]"
  by (induction kvs) auto

lemma normalizeEntries_distinct:
  "distinct (map fst mapping) \<Longrightarrow> fst ` set mapping \<inter> fst ` set acc = {} \<Longrightarrow>
   normalizeEntries get mapping pl acc s =
     (acc @ List.map_filter (\<lambda>(key, path). map_option (Pair key) (get pl path)) mapping,
      s\<lparr>logged := logged s @
           map warnMissing (filter (\<lambda>(key, path). get pl path = None) mapping)\<rparr>)"
proof (induction mapping arbitrary: acc s)
  case Nil
  then show ?case by (simp add: map_filter_simps)
next
  case (Cons kp rest)
  obtain key path where kp: "kp = (key, path)" by (cases kp)
  have fresh: "key \<notin> fst ` set acc" and d: "distinct (map fst rest)"
    and nk: "key \<notin> fst ` set rest" and disj: "fst ` set rest \<inter> fst ` set acc = {}"
    using Cons.prems unfolding kp by auto
  show ?case
  proof (cases "get pl path")
    case None
    then show ?thesis
      unfolding kp using Cons.IH [OF d disj]
      by (simp add: map_filter_simps)
  next
    case (Some v)
    have disj': "fst ` set rest \<inter> fst ` set (acc @ [(key, v)]) = {}"
      using disj nk by auto
    show ?thesis
      unfolding kp using Some Cons.IH [OF d disj'] obj_set_fresh [OF fresh]
      by (simp add: map_filter_simps)
  qed
qed

text \<open>
  Claim C8. For every mapping table (an object, so its target keys are distinct) and every
  raw payload, mapping-table normalization returns a value, never an error: the object
  whose entries are, in the order of the table, the target keys whose source path
  \<^verbatim>\<open>get\<close> resolves to a defined value, each bound to that value; a target key whose path
  is not found is left out, and one warning per such key is logged; nothing else of the
  service state changes.
\<close>

theorem mapping_table_normalization:
  assumes "distinct (map fst mapping)"
  shows "normalizeWithObjectMapping svc mapping pl s =
           (List.map_filter (\<lambda>(key, path). map_option (Pair key) (lodash_get svc pl path)) mapping,
            s\<lparr>logged := logged s @
                 map warnMissing (filter (\<lambda>(key, path). lodash_get svc pl path = None) mapping)\<rparr>)
       \<and> (\<forall>key. map_of (fst (normalizeWithObjectMapping svc mapping pl s)) key =
             (case map_of mapping key of None \<Rightarrow> None | Some path \<Rightarrow> lodash_get svc pl path))"
proof -
  let ?f = "\<lambda>(key, path). map_option (Pair key) (lodash_get svc pl path)"
  have eq: "normalizeWithObjectMapping svc mapping pl s =
           (List.map_filter ?f mapping,
            s\<lparr>logged := logged s @
                 map warnMissing (filter (\<lambda>(key, path). lodash_get svc pl path = None) mapping)\<rparr>)"
    unfolding normalizeWithObjectMapping_def
    using normalizeEntries_distinct [OF assms, of "[]" "lodash_get svc" pl s] by simp
  have look: "map_of (List.map_filter ?f m) key =
      (case map_of m key of None \<Rightarrow> None | Some path \<Rightarrow> lodash_get svc pl path)"
    if "distinct (map fst m)" for m key
    using that
  proof (induction m)
    case Nil
    then show ?case by (simp add: map_filter_simps)
  next
    case (Cons kp m)
    obtain k path where kp: "kp = (k, path)" by (cases kp)
    have nk: "map_of m k = None"
      using Cons.prems unfolding kp by (simp add: map_of_eq_None_iff)
    show ?case
      using Cons nk unfolding kp
      by (cases "lodash_get svc pl path") (auto simp: map_filter_simps)
  qed
  show ?thesis
    using eq look [OF assms] by simp
qed

theorem mapping_table_normalization_witness:
  "fst (normalizeWithObjectMapping (testService\<lparr>lodash_get := dot_get\<rparr>)
          [(''accessToken'', ''tokens.access_token''), (''refreshToken'', ''tokens.refresh_token'')]
          (Some (JObj [(''tokens'', JObj [(''access_token'', JStr ''abc'')])]))
          (initialState 0)) =
     [(''accessToken'', JStr ''abc'')]
   \<and> logged (snd (normalizeWithObjectMapping (testService\<lparr>lodash_get := dot_get\<rparr>)
          [(''accessToken'', ''tokens.access_token''), (''refreshToken'', ''tokens.refresh_token'')]
          (Some (JObj [(''tokens'', JObj [(''access_token'', JStr ''abc'')])]))
          (initialState 0))) =
     [warnMissing (''refreshToken'', ''tokens.refresh_token'')]"
proof -
  have d: "distinct (map fst [(''accessToken'', ''tokens.access_token''),
                              (''refreshToken'', ''tokens.refresh_token'')])"
    by simp
  show ?thesis
    using mapping_table_normalization [OF d, of "testService\<lparr>lodash_get := dot_get\<rparr>"
        "Some (JObj [(''tokens'', JObj [(''access_token'', JStr ''abc'')])])" "initialState 0"]
    by (simp add: map_filter_simps dot_get_def initialState_def)
qed

section \<open>URL resolver: properties\<close>

lemma includes_str_iff: "includes_str sub s \<longleftrightarrow> (\<exists>a b. s = a @ sub @ b)"
proof (induction s)
  case Nil
  then show ?case by auto
next
  case (Cons c cs)
  show ?case
  proof
    assume "includes_str sub (c # cs)"
    then consider "prefix sub (c # cs)" | "includes_str sub cs" by auto
    then show "\<exists>a b. c # cs = a @ sub @ b"
    proof cases
      case 1
      then obtain b where "c # cs = sub @ b" by (auto simp: prefix_def)
      then have "c # cs = [] @ sub @ b" by simp
      then show ?thesis by blast
    next
      case 2
      then obtain a b where "cs = a @ sub @ b" using Cons.IH by blast
      then have "c # cs = (c # a) @ sub @ b" by simp
      then show ?thesis by blast
    qed
  next
    assume "\<exists>a b. c # cs = a @ sub @ b"
    then obtain a b where ab: "c # cs = a @ sub @ b" by blast
    show "includes_str sub (c # cs)"
    proof (cases a)
      case Nil
      then have "prefix sub (c # cs)" using ab by (simp add: prefix_def)
      then show ?thesis by simp
    next
      case (Cons x a')
      then have "cs = a' @ sub @ b" using ab by simp
      then show ?thesis using Cons.IH by auto
    qed
  qed
qed

text \<open>
  A template with a scheme separator is used as it is; any other is appended to the base
  URL.
\<close>

lemma resolveBaseUrl_cases:
  "(\<exists>a b. u = a @ ''://'' @ b) \<Longrightarrow> resolveBaseUrl svc u = u"
  "\<not> (\<exists>a b. u = a @ ''://'' @ b) \<Longrightarrow> resolveBaseUrl svc u = baseUrl svc @ u"
  by (simp_all add: resolveBaseUrl_def includes_str_iff)

text \<open>
  Resolution fails exactly when a placeholder of the resolved template (a colon and a
  name behind a slash) has no entry in the path parameters.
\<close>

lemma constructUrl_fails_iff:
  "(\<exists>e. constructUrl svc u pps = Inl e) \<longleftrightarrow>
   (\<exists>x \<in> set (extractPathParamNames (resolveBaseUrl svc u)).
      x \<notin> (case pps of None \<Rightarrow> {} | Some pp \<Rightarrow> fst ` set pp))"
  by (cases "extractPathParamNames (resolveBaseUrl svc u)")
     (auto simp: constructUrl_def validatePathParams_def Let_def filter_empty_conv
      split: option.splits)

text \<open>The examples of the specification and an absolute template of the repository.\<close>

lemma constructUrl_example:
  "constructUrl testService ''/users/:userId/details'' (Some [(''userId'', ''123'')]) =
     Inr ''http://testapi.com/users/123/details''"
  "constructUrl testService ''/users/:userId/details'' (Some []) =
     Inl (MissingPathParameter ''/users/:userId/details'' [''userId''])"
  "constructUrl testService ''https://graph.microsoft.com/beta/subscriptions/:subscriptionId''
     (Some [(''subscriptionId'', ''s1'')]) =
     Inr ''https://graph.microsoft.com/beta/subscriptions/s1''"
  by (simp_all add: constructUrl_def resolveBaseUrl_def validatePathParams_def
      replacePathParams_def is_word_char_def testService_def Let_def)

text \<open>
  Claim C7, evaluated on the code. In the template \<^verbatim>\<open>/files/:id.json\<close> the placeholder
  \<^verbatim>\<open>:id\<close> stands immediately behind a path separator: \<^verbatim>\<open>extractPathParamNames\<close> finds
  it and resolution fails without a value for it. With the value \<^verbatim>\<open>7\<close> the claim asks
  for \<^verbatim>\<open>/files/7.json\<close> behind the base URL, but \<^verbatim>\<open>replacePathParams\<close> replaces a
  placeholder only in front of a slash or at the end of the URL, and the URL comes back
  with the placeholder in it.
\<close>

theorem placeholder_before_dot_not_replaced:
  "extractPathParamNames ''http://testapi.com/files/:id.json'' = [''id'']
   \<and> constructUrl testService ''/files/:id.json'' None =
       Inl (MissingPathParameter ''/files/:id.json'' [''id''])
   \<and> constructUrl testService ''/files/:id.json'' (Some [(''id'', ''7'')]) =
       Inr ''http://testapi.com/files/:id.json''"
  by (simp add: constructUrl_def resolveBaseUrl_def validatePathParams_def
      replacePathParams_def is_word_char_def testService_def Let_def)

end
